theory Spec2Isabelle
  imports Main "HOL-Library.AList"
begin

section \<open>Domain vocabulary\<close>

text \<open>
  The five \<^verbatim>\<open>enum.IntEnum\<close> classes of \<^verbatim>\<open>hydrus/__init__.py\<close>. Each is a datatype of
  its members, a function giving the integer of a member, and the list of members in
  the order of the class body.
\<close>

datatype Permission = ImportURLs | ImportFiles | AddTags | SearchFiles

datatype URLType = PostURL | FileURL | GalleryURL | WatchableURL | UnknownURL

datatype ImportStatus = Importable | Success | Exists | PreviouslyDeleted | Failed | Vetoed

datatype TagAction = Add | Delete | Pend | RescindPending | Petition | RescindPetition

datatype TagStatus = Current | Pending | Deleted | Petitioned

fun Permission_value :: "Permission \<Rightarrow> int" where
  "Permission_value ImportURLs = 0"
| "Permission_value ImportFiles = 1"
| "Permission_value AddTags = 2"
| "Permission_value SearchFiles = 3"

fun URLType_value :: "URLType \<Rightarrow> int" where
  "URLType_value PostURL = 0"
| "URLType_value FileURL = 2"
| "URLType_value GalleryURL = 3"
| "URLType_value WatchableURL = 4"
| "URLType_value UnknownURL = 5"

fun ImportStatus_value :: "ImportStatus \<Rightarrow> int" where
  "ImportStatus_value Importable = 0"
| "ImportStatus_value Success = 1"
| "ImportStatus_value Exists = 2"
| "ImportStatus_value PreviouslyDeleted = 3"
| "ImportStatus_value Failed = 4"
| "ImportStatus_value Vetoed = 7"

fun TagAction_value :: "TagAction \<Rightarrow> int" where
  "TagAction_value Add = 0"
| "TagAction_value Delete = 1"
| "TagAction_value Pend = 2"
| "TagAction_value RescindPending = 3"
| "TagAction_value Petition = 4"
| "TagAction_value RescindPetition = 5"

fun TagStatus_value :: "TagStatus \<Rightarrow> int" where
  "TagStatus_value Current = 0"
| "TagStatus_value Pending = 1"
| "TagStatus_value Deleted = 2"
| "TagStatus_value Petitioned = 3"

definition Permission_members :: "Permission list" where
  "Permission_members = [ImportURLs, ImportFiles, AddTags, SearchFiles]"

definition URLType_members :: "URLType list" where
  "URLType_members = [PostURL, FileURL, GalleryURL, WatchableURL, UnknownURL]"

definition ImportStatus_members :: "ImportStatus list" where
  "ImportStatus_members = [Importable, Success, Exists, PreviouslyDeleted, Failed, Vetoed]"

definition TagStatus_members :: "TagStatus list" where
  "TagStatus_members = [Current, Pending, Deleted, Petitioned]"

section \<open>Python values\<close>

text \<open>
  The values that travel through the client: what \<^verbatim>\<open>response.json()\<close> can return (null,
  booleans, integers, strings, lists, objects), byte strings, and the enum members the
  translators put in their place. A dictionary is an association list in insertion
  order with distinct keys; a key is a string (all a JSON object has) or a
  \<^verbatim>\<open>TagStatus\<close> member (what \<^verbatim>\<open>file_metadata\<close> re-keys to). JSON numbers with a fraction or
  an exponent (Python floats) are outside the model.
\<close>

datatype key = KStr string | KTagStatus TagStatus

datatype pyval =
    PNone
  | PBool bool
  | PInt int
  | PStr string
  | PBytes string
  | PList "pyval list"
  | PDict "(key \<times> pyval) list"
  | PPermission Permission
  | PURLType URLType
  | PImportStatus ImportStatus
  | PTagStatus TagStatus

text \<open>
  The integer a value hashes and compares as, when it is one: \<^verbatim>\<open>bool\<close> is a subclass
  of \<^verbatim>\<open>int\<close>, and so is every \<^verbatim>\<open>IntEnum\<close> member.
\<close>

fun int_value :: "pyval \<Rightarrow> int option" where
  "int_value (PInt n) = Some n"
| "int_value (PBool b) = Some (if b then 1 else 0)"
| "int_value (PPermission p) = Some (Permission_value p)"
| "int_value (PURLType u) = Some (URLType_value u)"
| "int_value (PImportStatus s) = Some (ImportStatus_value s)"
| "int_value (PTagStatus t) = Some (TagStatus_value t)"
| "int_value _ = None"

text \<open>Truth value testing, \<^verbatim>\<open>bool(x)\<close>: \<^verbatim>\<open>None\<close>, zero and every empty container are false.\<close>

fun truthy :: "pyval \<Rightarrow> bool" where
  "truthy PNone = False"
| "truthy (PStr s) = (s \<noteq> [])"
| "truthy (PBytes b) = (b \<noteq> [])"
| "truthy (PList xs) = (xs \<noteq> [])"
| "truthy (PDict d) = (d \<noteq> [])"
| "truthy v = (int_value v \<noteq> Some 0)"

section \<open>Errors\<close>

text \<open>
  A response as the client reads it: the status code, what \<^verbatim>\<open>response.json()\<close> returns
  (\<open>None\<close> when the body is not JSON and the call raises) and the raw bytes
  \<^verbatim>\<open>response.content\<close>. The parser reads integers with \<^verbatim>\<open>int\<close>, so those of a parsed
  body are within the digit limit.
\<close>

record response =
  status_code :: int
  resp_json :: "pyval option"
  content :: string

text \<open>
  The message of a \<^verbatim>\<open>ValueError\<close>: the enum lookup's "v is not a valid Name", the
  "invalid literal for int()" of \<^verbatim>\<open>int(s)\<close>, the "Exceeds the limit" of a conversion
  between \<^verbatim>\<open>int\<close> and \<^verbatim>\<open>str\<close> (from a string, with the number of digits it has; to a
  string), or a text the source gives.
\<close>

datatype value_error =
    NotAValid pyval string
  | InvalidLiteral string
  | DigitLimitToInt nat
  | DigitLimitToStr
  | Message string

text \<open>
  Every exception a call can end with. The first four are the classes the source
  defines, each holding the response; \<open>Exception\<close> is the bare
  \<^verbatim>\<open>raise Exception(...)\<close> of the identity checks; \<open>RequestException\<close> stands for
  whatever the transport raises when no response arrives.
\<close>

datatype error =
    APIError response
  | MissingParameter response
  | InsufficientAccess response
  | ServerError response
  | Exception string
  | ValueError value_error
  | KeyError string
  | TypeError
  | AttributeError
  | JSONDecodeError
  | RequestException

fun error_response :: "error \<Rightarrow> response option" where
  "error_response (APIError r) = Some r"
| "error_response (MissingParameter r) = Some r"
| "error_response (InsufficientAccess r) = Some r"
| "error_response (ServerError r) = Some r"
| "error_response _ = None"

fun is_api_error :: "error \<Rightarrow> bool" where
  "is_api_error (APIError r) = True"
| "is_api_error (MissingParameter r) = True"
| "is_api_error (InsufficientAccess r) = True"
| "is_api_error (ServerError r) = True"
| "is_api_error _ = False"

definition and_then :: "error + 'a \<Rightarrow> ('a \<Rightarrow> error + 'b) \<Rightarrow> error + 'b" where
  "and_then x f = (case x of Inl e \<Rightarrow> Inl e | Inr a \<Rightarrow> f a)"

text \<open>A loop body run over a list, stopping at the first exception.\<close>

fun map_err :: "('a \<Rightarrow> error + 'b) \<Rightarrow> 'a list \<Rightarrow> error + 'b list" where
  "map_err f [] = Inr []"
| "map_err f (x # xs) =
     (case f x of Inl e \<Rightarrow> Inl e
      | Inr y \<Rightarrow> (case map_err f xs of Inl e \<Rightarrow> Inl e | Inr ys \<Rightarrow> Inr (y # ys)))"

section \<open>Requests, the service and the client\<close>

text \<open>
  A parameter of the query string: a caller's value passed on as it is, or the text
  \<^verbatim>\<open>json.dumps(v)\<close>, kept as the value it serialises.
\<close>

datatype param = Plain pyval | Dumps pyval

text \<open>The keyword arguments handed to \<^verbatim>\<open>session.request\<close>; \<open>None\<close> is a keyword not passed.\<close>

record kwargs =
  headers :: "(string \<times> pyval) list option"
  params :: "(string \<times> param) list option"
  json :: "pyval option"
  data :: "string option"

record request =
  req_method :: string
  req_url :: string
  req_kwargs :: kwargs

text \<open>
  The remote service with the transport: given the requests the session sent before and
  the request sent now, the response received, or \<open>None\<close> when the transport raises
  (no connection, a time-out, a body or a parameter it cannot encode).
\<close>

type_synonym service = "request list \<Rightarrow> request \<Rightarrow> response option"

text \<open>A stub that answers every request with the same response.\<close>

definition stub :: "response \<Rightarrow> service" where
  "stub r = (\<lambda>sent rq. Some r)"

text \<open>
  The client object: \<^verbatim>\<open>_access_key\<close>, \<^verbatim>\<open>_url\<close>, and for \<^verbatim>\<open>_session\<close> the calls of
  \<^verbatim>\<open>session.request\<close> made through it, oldest first, each as the request it was given.
\<close>

record client =
  access_key :: pyval
  url :: string
  session :: "request list"

definition VERSION :: int where
  "VERSION = 4"

definition no_kwargs :: kwargs where
  "no_kwargs = \<lparr>headers = None, params = None, json = None, data = None\<rparr>"

definition ACCESS_KEY_HEADER :: string where
  "ACCESS_KEY_HEADER = ''Hydrus-Client-API-Access-Key''"

text \<open>
  \<^verbatim>\<open>Response.raise_for_status\<close> of the requests library raises \<^verbatim>\<open>HTTPError\<close> for the
  client errors (400 to 499) and the server errors (500 to 599), and for no other status.
\<close>

definition raise_for_status :: "response \<Rightarrow> bool" where
  "raise_for_status r = (400 \<le> status_code r \<and> status_code r < 600)"

text \<open>
  Lines 113 and 114 of \<^verbatim>\<open>_call_endpoint\<close>: with a truthy access key,
  \<^verbatim>\<open>kwargs.setdefault('headers', {}).update({...})\<close>.
\<close>

definition attach_access_key :: "client \<Rightarrow> kwargs \<Rightarrow> kwargs" where
  "attach_access_key c kw =
     (if truthy (access_key c)
      then kw\<lparr>headers := Some (AList.update ACCESS_KEY_HEADER (access_key c)
                                (case headers kw of None \<Rightarrow> [] | Some h \<Rightarrow> h))\<rparr>
      else kw)"

definition outbound :: "client \<Rightarrow> string \<Rightarrow> string \<Rightarrow> kwargs \<Rightarrow> request" where
  "outbound c meth endpoint kw =
     \<lparr>req_method = meth, req_url = url c @ endpoint, req_kwargs = attach_access_key c kw\<rparr>"

definition call_endpoint ::
  "service \<Rightarrow> client \<Rightarrow> string \<Rightarrow> string \<Rightarrow> kwargs \<Rightarrow> (error + response) \<times> client" where
  "call_endpoint srv c meth endpoint kw =
     (let rq = outbound c meth endpoint kw;
          c' = c\<lparr>session := session c @ [rq]\<rparr>
      in case srv (session c) rq of
           None \<Rightarrow> (Inl RequestException, c')
         | Some response \<Rightarrow>
             if raise_for_status response then
               (if status_code response = 400 then (Inl (MissingParameter response), c')
                else if status_code response \<in> {401, 403} then (Inl (InsufficientAccess response), c')
                else if status_code response = 500 then (Inl (ServerError response), c')
                else (Inl (APIError response), c'))
             else (Inr response, c'))"

definition on_response ::
  "(error + response) \<times> client \<Rightarrow> (response \<Rightarrow> error + 'a) \<Rightarrow> (error + 'a) \<times> client" where
  "on_response rc f = (case rc of (r, c') \<Rightarrow> (and_then r f, c'))"

section \<open>Reading a response\<close>

definition json_of :: "response \<Rightarrow> error + pyval" where
  "json_of response =
     (case resp_json response of None \<Rightarrow> Inl JSONDecodeError | Some v \<Rightarrow> Inr v)"

text \<open>
  \<^verbatim>\<open>x[k]\<close> and \<^verbatim>\<open>x[k] = v\<close> with a string \<open>k\<close>: a dictionary looks the key up (a
  missing key raises \<^verbatim>\<open>KeyError\<close>) or stores the value, in place when the key is there
  and at the end otherwise; every other value raises \<^verbatim>\<open>TypeError\<close>.
\<close>

fun getitem :: "pyval \<Rightarrow> string \<Rightarrow> error + pyval" where
  "getitem (PDict d) k = (case map_of d (KStr k) of None \<Rightarrow> Inl (KeyError k) | Some v \<Rightarrow> Inr v)"
| "getitem _ k = Inl TypeError"

fun setitem :: "pyval \<Rightarrow> string \<Rightarrow> pyval \<Rightarrow> error + pyval" where
  "setitem (PDict d) k v = Inr (PDict (AList.update (KStr k) v d))"
| "setitem _ k v = Inl TypeError"

fun key_value :: "key \<Rightarrow> pyval" where
  "key_value (KStr s) = PStr s"
| "key_value (KTagStatus t) = PTagStatus t"

text \<open>What \<^verbatim>\<open>for x in v\<close> runs over; a value that is not iterable raises \<^verbatim>\<open>TypeError\<close>.\<close>

fun iter_values :: "pyval \<Rightarrow> error + pyval list" where
  "iter_values (PList xs) = Inr xs"
| "iter_values (PDict d) = Inr (map (\<lambda>kv. key_value (fst kv)) d)"
| "iter_values (PStr s) = Inr (map (\<lambda>ch. PStr [ch]) s)"
| "iter_values (PBytes b) = Inr (map (\<lambda>ch. PInt (of_char ch)) b)"
| "iter_values _ = Inl TypeError"

text \<open>\<^verbatim>\<open>v.items()\<close>: only a dictionary has the attribute.\<close>

fun items_of :: "pyval \<Rightarrow> error + (key \<times> pyval) list" where
  "items_of (PDict d) = Inr d"
| "items_of _ = Inl AttributeError"

text \<open>
  A \<^verbatim>\<open>for\<close> loop whose body changes each element in place. The elements of a list are
  objects of their own, so the list holds the changed elements afterwards; a string, a
  byte string or a dictionary gives immutable elements (characters, integers, keys),
  and is left as it was when the loop ends without an exception.
\<close>

definition for_each :: "(pyval \<Rightarrow> error + pyval) \<Rightarrow> pyval \<Rightarrow> error + pyval" where
  "for_each body xs =
     and_then (iter_values xs) (\<lambda>elems.
     and_then (map_err body elems) (\<lambda>elems'.
     Inr (case xs of PList _ \<Rightarrow> PList elems' | _ \<Rightarrow> xs)))"

subsection \<open>Enum lookup by value\<close>

text \<open>
  \<^verbatim>\<open>Cls(value)\<close> on an \<^verbatim>\<open>IntEnum\<close>: the member whose integer equals the value, and
  \<^verbatim>\<open>ValueError\<close> for every value without one (also for a value that is no integer).
\<close>

definition enum_by_value :: "('e \<Rightarrow> int) \<Rightarrow> 'e list \<Rightarrow> string \<Rightarrow> pyval \<Rightarrow> error + 'e" where
  "enum_by_value val members cls v =
     (case int_value v of
        None \<Rightarrow> Inl (ValueError (NotAValid v cls))
      | Some n \<Rightarrow>
          (case find (\<lambda>m. val m = n) members of
             None \<Rightarrow> Inl (ValueError (NotAValid v cls))
           | Some m \<Rightarrow> Inr m))"

definition Permission_by_value :: "pyval \<Rightarrow> error + Permission" where
  "Permission_by_value = enum_by_value Permission_value Permission_members ''Permission''"

definition URLType_by_value :: "pyval \<Rightarrow> error + URLType" where
  "URLType_by_value = enum_by_value URLType_value URLType_members ''URLType''"

definition ImportStatus_by_value :: "pyval \<Rightarrow> error + ImportStatus" where
  "ImportStatus_by_value = enum_by_value ImportStatus_value ImportStatus_members ''ImportStatus''"

definition TagStatus_by_value :: "pyval \<Rightarrow> error + TagStatus" where
  "TagStatus_by_value = enum_by_value TagStatus_value TagStatus_members ''TagStatus''"

subsection \<open>The builtin \<open>int\<close> on a string\<close>

text \<open>
  \<^verbatim>\<open>sys.int_info.default_max_str_digits\<close>: the most digits a conversion between \<^verbatim>\<open>int\<close>
  and \<^verbatim>\<open>str\<close> in base 10 accepts, unless the interpreter is configured otherwise.
\<close>

definition MAX_STR_DIGITS :: nat where
  "MAX_STR_DIGITS = 4300"

text \<open>
  \<^verbatim>\<open>int(s)\<close> in base 10, for a string of code points below 256, in the order in which
  the interpreter checks: leading white space is skipped and one sign may follow; then
  comes the run of digits and underscores, which must start with a digit and have
  every underscore between two digits, else the literal is invalid; a run of more than
  \<open>MAX_STR_DIGITS\<close> digits raises the \<^verbatim>\<open>ValueError\<close> of the limit; and after the run only
  white space may follow, else the literal is invalid. The white space is tab, line
  feed, vertical tab, form feed, carriage return and space, and of the code points from
  127 on the two that are spaces, 133 and 160; the separators 28 to 31 are not white
  space here.
\<close>

definition is_space :: "char \<Rightarrow> bool" where
  "is_space ch = ((of_char ch :: nat) \<in> {9, 10, 11, 12, 13, 32, 133, 160})"

definition is_digit :: "char \<Rightarrow> bool" where
  "is_digit ch = (48 \<le> (of_char ch :: nat) \<and> (of_char ch :: nat) \<le> 57)"

definition digit_value :: "char \<Rightarrow> int" where
  "digit_value ch = of_char ch - 48"

fun py_digits :: "int \<Rightarrow> string \<Rightarrow> int option" where
  "py_digits acc [] = Some acc"
| "py_digits acc (ch # cs) =
     (if is_digit ch then py_digits (10 * acc + digit_value ch) cs
      else if ch = CHR ''_'' then
        (case cs of
           [] \<Rightarrow> None
         | d # ds \<Rightarrow> if is_digit d then py_digits (10 * acc + digit_value d) ds else None)
      else None)"

definition py_unsigned :: "string \<Rightarrow> int option" where
  "py_unsigned s =
     (case s of
        [] \<Rightarrow> None
      | ch # cs \<Rightarrow> if is_digit ch then py_digits (digit_value ch) cs else None)"

definition py_int :: "string \<Rightarrow> error + int" where
  "py_int s =
     (let t = dropWhile is_space s;
          negative = (case t of [] \<Rightarrow> False | ch # cs \<Rightarrow> ch = CHR ''-'');
          u = (case t of
                 [] \<Rightarrow> []
               | ch # cs \<Rightarrow> if ch = CHR ''-'' \<or> ch = CHR ''+'' then cs else t);
          run = takeWhile (\<lambda>ch. is_digit ch \<or> ch = CHR ''_'') u;
          rest = dropWhile (\<lambda>ch. is_digit ch \<or> ch = CHR ''_'') u
      in case py_unsigned run of
           None \<Rightarrow> Inl (ValueError (InvalidLiteral s))
         | Some n \<Rightarrow>
             if MAX_STR_DIGITS < length (filter is_digit run)
             then Inl (ValueError (DigitLimitToInt (length (filter is_digit run))))
             else if dropWhile is_space rest \<noteq> [] then Inl (ValueError (InvalidLiteral s))
             else Inr (if negative then - n else n))"

text \<open>\<^verbatim>\<open>int(status)\<close> on a dictionary key: a string is parsed, an enum member is its integer.\<close>

fun int_of_key :: "key \<Rightarrow> error + int" where
  "int_of_key (KStr s) = py_int s"
| "int_of_key (KTagStatus t) = Inr (TagStatus_value t)"

subsection \<open>\<^verbatim>\<open>json.dumps\<close>\<close>

text \<open>
  \<^verbatim>\<open>json.dumps(v)\<close> walks the value in order and raises at the first part it cannot
  write: \<^verbatim>\<open>TypeError\<close> for a byte string, and the \<^verbatim>\<open>ValueError\<close> of the digit limit for
  an integer of more than \<open>MAX_STR_DIGITS\<close> digits. Strings, booleans, \<^verbatim>\<open>None\<close>, enum
  members (integers below the limit) and the keys of a dictionary are always written.
  Nesting beyond the interpreter's recursion limit is outside the model.
\<close>

definition exceeds_digit_limit :: "int \<Rightarrow> bool" where
  "exceeds_digit_limit n = (10 ^ MAX_STR_DIGITS \<le> \<bar>n\<bar>)"

definition first_error :: "error option list \<Rightarrow> error option" where
  "first_error es = (case find (\<lambda>e. e \<noteq> None) es of None \<Rightarrow> None | Some e \<Rightarrow> e)"

primrec dumps_error :: "pyval \<Rightarrow> error option" where
  "dumps_error PNone = None"
| "dumps_error (PBool b) = None"
| "dumps_error (PInt n) = (if exceeds_digit_limit n then Some (ValueError DigitLimitToStr) else None)"
| "dumps_error (PStr s) = None"
| "dumps_error (PBytes b) = Some TypeError"
| "dumps_error (PList xs) = first_error (map dumps_error xs)"
| "dumps_error (PDict d) = first_error (map snd (map (map_prod id dumps_error) d))"
| "dumps_error (PPermission p) = None"
| "dumps_error (PURLType u) = None"
| "dumps_error (PImportStatus st) = None"
| "dumps_error (PTagStatus t) = None"

text \<open>The text \<^verbatim>\<open>json.dumps(v)\<close> as a parameter of the query string, or what it raises.\<close>

definition json_dumps :: "pyval \<Rightarrow> error + param" where
  "json_dumps v = (case dumps_error v of Some e \<Rightarrow> Inl e | None \<Rightarrow> Inr (Dumps v))"

section \<open>The client's operations\<close>

text \<open>
  A step that may raise before the dispatcher is called: the exception ends the
  operation with the client as it is.
\<close>

definition or_raise ::
  "error + 'p \<Rightarrow> client \<Rightarrow> ('p \<Rightarrow> (error + 'a) \<times> client) \<Rightarrow> (error + 'a) \<times> client" where
  "or_raise x c k = (case x of Inl e \<Rightarrow> (Inl e, c) | Inr p \<Rightarrow> k p)"

definition DEFAULT_API_URL :: string where
  "DEFAULT_API_URL = ''http://127.0.0.1:45869/''"

definition API_VERSION_ENDPOINT :: string where
  "API_VERSION_ENDPOINT = ''/api_version''"

definition REQUEST_NEW_PERMISSIONS_ENDPOINT :: string where
  "REQUEST_NEW_PERMISSIONS_ENDPOINT = ''/request_new_permissions''"

definition VERIFY_ACCESS_KEY_ENDPOINT :: string where
  "VERIFY_ACCESS_KEY_ENDPOINT = ''/verify_access_key''"

definition ADD_FILE_ENDPOINT :: string where
  "ADD_FILE_ENDPOINT = ''/add_files/add_file''"

definition CLEAN_TAGS_ENDPOINT :: string where
  "CLEAN_TAGS_ENDPOINT = ''/add_tags/clean_tags''"

definition GET_TAG_SERVICES_ENDPOINT :: string where
  "GET_TAG_SERVICES_ENDPOINT = ''/add_tags/get_tag_services''"

definition ADD_TAGS_ENDPOINT :: string where
  "ADD_TAGS_ENDPOINT = ''/add_tags/add_tags''"

definition GET_URL_FILES_ENDPOINT :: string where
  "GET_URL_FILES_ENDPOINT = ''/add_urls/get_url_files''"

definition GET_URL_INFO_ENDPOINT :: string where
  "GET_URL_INFO_ENDPOINT = ''/add_urls/get_url_info''"

definition ADD_URL_ENDPOINT :: string where
  "ADD_URL_ENDPOINT = ''/add_urls/add_url''"

definition ASSOCIATE_URL_ENDPOINT :: string where
  "ASSOCIATE_URL_ENDPOINT = ''/add_urls/associate_url''"

definition SEARCH_FILES_ENDPOINT :: string where
  "SEARCH_FILES_ENDPOINT = ''/get_files/search_files''"

definition FILE_METADATA_ENDPOINT :: string where
  "FILE_METADATA_ENDPOINT = ''/get_files/file_metadata''"

definition FILE_ENDPOINT :: string where
  "FILE_ENDPOINT = ''/get_files/file''"

definition THUMBNAIL_ENDPOINT :: string where
  "THUMBNAIL_ENDPOINT = ''/get_files/thumbnail''"

definition api_version :: "service \<Rightarrow> client \<Rightarrow> (error + pyval) \<times> client" where
  "api_version srv c =
     on_response (call_endpoint srv c ''GET'' API_VERSION_ENDPOINT no_kwargs)
       (\<lambda>response. and_then (json_of response) (\<lambda>body. getitem body ''version''))"

text \<open>\<^verbatim>\<open>s.rstrip(chars)\<close>: the trailing characters that are among \<open>chars\<close> are removed.\<close>

definition rstrip :: "string \<Rightarrow> string \<Rightarrow> string" where
  "rstrip s chars = rev (dropWhile (\<lambda>ch. ch \<in> set chars) (rev s))"

text \<open>
  The warning of the constructor, held as the two values its message formats: the
  module's version and the version the endpoint reported.
\<close>

datatype warning = VersionsDiffer int pyval

text \<open>
  \<^verbatim>\<open>Client.__init__\<close>: the object as far as it was built, and either the exception that
  ended the construction or the warnings it emitted. \<^verbatim>\<open>VERSION != api_version\<close>
  compares an integer with whatever the body held.
\<close>

definition Client_init :: "service \<Rightarrow> pyval \<Rightarrow> string \<Rightarrow> (error + warning list) \<times> client" where
  "Client_init srv key u =
     (let c = \<lparr>access_key = key, url = rstrip u ''/'', session = []\<rparr>
      in case api_version srv c of
           (Inl e, c') \<Rightarrow> (Inl e, c')
         | (Inr v, c') \<Rightarrow>
             (Inr (if int_value v \<noteq> Some VERSION then [VersionsDiffer VERSION v] else []), c'))"

text \<open>
  The \<^verbatim>\<open>params\<close> dictionaries that hold \<^verbatim>\<open>json.dumps\<close> texts are built before the
  dispatcher is called, entry by entry in the order of the source.
\<close>

definition request_new_permissions_params :: "pyval \<Rightarrow> pyval \<Rightarrow> error + (string \<times> param) list" where
  "request_new_permissions_params name permissions =
     and_then (json_dumps permissions) (\<lambda>p.
     Inr [(''name'', Plain name), (''basic_permissions'', p)])"

definition request_new_permissions ::
  "service \<Rightarrow> client \<Rightarrow> pyval \<Rightarrow> pyval \<Rightarrow> (error + pyval) \<times> client" where
  "request_new_permissions srv c name permissions =
     or_raise (request_new_permissions_params name permissions) c (\<lambda>ps.
       on_response
         (call_endpoint srv c ''GET'' REQUEST_NEW_PERMISSIONS_ENDPOINT
            (no_kwargs\<lparr>params := Some ps\<rparr>))
         (\<lambda>response. and_then (json_of response) (\<lambda>body. getitem body ''access_key'')))"

definition verify_access_key :: "service \<Rightarrow> client \<Rightarrow> (error + pyval) \<times> client" where
  "verify_access_key srv c =
     on_response (call_endpoint srv c ''GET'' VERIFY_ACCESS_KEY_ENDPOINT no_kwargs)
       (\<lambda>response.
          and_then (json_of response) (\<lambda>body.
          and_then (getitem body ''basic_permissions'') (\<lambda>raw.
          and_then (iter_values raw) (\<lambda>vals.
          and_then (map_err Permission_by_value vals) (\<lambda>ps.
          setitem body ''basic_permissions'' (PList (map PPermission ps)))))))"

text \<open>
  The argument of \<^verbatim>\<open>add_file\<close>: a plain value, an \<^verbatim>\<open>io.BytesIO\<close> (its buffer and its
  position; \<^verbatim>\<open>read()\<close> returns the bytes from the position on), or the buffered reader
  that \<^verbatim>\<open>open(path, 'rb')\<close> returns, which is a file object but no \<^verbatim>\<open>io.BytesIO\<close>.
\<close>

datatype path_or_file = Val pyval | BytesIO string nat | BufferedReader string nat

definition import_status_of :: "response \<Rightarrow> error + pyval" where
  "import_status_of response =
     and_then (json_of response) (\<lambda>body.
     and_then (getitem body ''status'') (\<lambda>raw.
     and_then (ImportStatus_by_value raw) (\<lambda>st.
     setitem body ''status'' (PImportStatus st))))"

fun add_file :: "service \<Rightarrow> client \<Rightarrow> path_or_file \<Rightarrow> (error + pyval) \<times> client" where
  "add_file srv c (Val (PStr path)) =
     on_response
       (call_endpoint srv c ''POST'' ADD_FILE_ENDPOINT
          (no_kwargs\<lparr>json := Some (PDict [(KStr ''path'', PStr path)])\<rparr>))
       import_status_of"
| "add_file srv c (BytesIO buf pos) =
     on_response
       (call_endpoint srv c ''POST'' ADD_FILE_ENDPOINT
          (no_kwargs\<lparr>data := Some (drop pos buf),
                     headers := Some [(''Content-Type'', PStr ''application/octet-stream'')]\<rparr>))
       import_status_of"
| "add_file srv c _ = (Inl (ValueError (Message ''Value must be file object or path'')), c)"

definition clean_tags_params :: "pyval \<Rightarrow> error + (string \<times> param) list" where
  "clean_tags_params tags = and_then (json_dumps tags) (\<lambda>t. Inr [(''tags'', t)])"

definition clean_tags :: "service \<Rightarrow> client \<Rightarrow> pyval \<Rightarrow> (error + pyval) \<times> client" where
  "clean_tags srv c tags =
     or_raise (clean_tags_params tags) c (\<lambda>ps.
       on_response
         (call_endpoint srv c ''GET'' CLEAN_TAGS_ENDPOINT (no_kwargs\<lparr>params := Some ps\<rparr>))
         (\<lambda>response. and_then (json_of response) (\<lambda>body. getitem body ''tags'')))"

definition get_tag_services :: "service \<Rightarrow> client \<Rightarrow> (error + pyval) \<times> client" where
  "get_tag_services srv c =
     on_response (call_endpoint srv c ''GET'' GET_TAG_SERVICES_ENDPOINT no_kwargs) json_of"

definition add_tags ::
  "service \<Rightarrow> client \<Rightarrow> pyval \<Rightarrow> pyval \<Rightarrow> pyval \<Rightarrow> (error + pyval) \<times> client" where
  "add_tags srv c hashes services_to_tags services_to_actions =
     on_response
       (call_endpoint srv c ''POST'' ADD_TAGS_ENDPOINT
          (no_kwargs\<lparr>json := Some (PDict
             ([(KStr ''hashes'', hashes)]
              @ (if truthy services_to_tags
                 then [(KStr ''service_names_to_tags'', services_to_tags)] else [])
              @ (if truthy services_to_actions
                 then [(KStr ''service_names_to_actions_to_tags'', services_to_actions)]
                 else [])))\<rparr>))
       (\<lambda>response. Inr PNone)"

definition translate_file_status :: "pyval \<Rightarrow> error + pyval" where
  "translate_file_status file_status =
     and_then (getitem file_status ''status'') (\<lambda>raw.
     and_then (ImportStatus_by_value raw) (\<lambda>st.
     setitem file_status ''status'' (PImportStatus st)))"

definition get_url_files :: "service \<Rightarrow> client \<Rightarrow> pyval \<Rightarrow> (error + pyval) \<times> client" where
  "get_url_files srv c u =
     on_response
       (call_endpoint srv c ''GET'' GET_URL_FILES_ENDPOINT
          (no_kwargs\<lparr>params := Some [(''url'', Plain u)]\<rparr>))
       (\<lambda>response.
          and_then (json_of response) (\<lambda>body.
          and_then (getitem body ''url_file_statuses'') (\<lambda>statuses.
          and_then (for_each translate_file_status statuses) (\<lambda>statuses'.
          setitem body ''url_file_statuses'' statuses'))))"

definition get_url_info :: "service \<Rightarrow> client \<Rightarrow> pyval \<Rightarrow> (error + pyval) \<times> client" where
  "get_url_info srv c u =
     on_response
       (call_endpoint srv c ''GET'' GET_URL_INFO_ENDPOINT
          (no_kwargs\<lparr>params := Some [(''url'', Plain u)]\<rparr>))
       (\<lambda>response.
          and_then (json_of response) (\<lambda>body.
          and_then (getitem body ''url_type'') (\<lambda>raw.
          and_then (URLType_by_value raw) (\<lambda>ut.
          setitem body ''url_type'' (PURLType ut)))))"

definition add_url ::
  "service \<Rightarrow> client \<Rightarrow> pyval \<Rightarrow> pyval \<Rightarrow> pyval \<Rightarrow> (error + pyval) \<times> client" where
  "add_url srv c u page_name service_to_tags =
     on_response
       (call_endpoint srv c ''POST'' ADD_URL_ENDPOINT
          (no_kwargs\<lparr>json := Some (PDict
             ([(KStr ''url'', u)]
              @ (if truthy page_name then [(KStr ''destination_page_name'', page_name)] else [])
              @ (if truthy service_to_tags
                 then [(KStr ''service_names_to_tags'', service_to_tags)] else [])))\<rparr>))
       json_of"

definition associate_url ::
  "service \<Rightarrow> client \<Rightarrow> pyval \<Rightarrow> pyval \<Rightarrow> pyval \<Rightarrow> (error + pyval) \<times> client" where
  "associate_url srv c hashes add delete =
     on_response
       (call_endpoint srv c ''POST'' ASSOCIATE_URL_ENDPOINT
          (no_kwargs\<lparr>json := Some (PDict
             ([(KStr ''hashes'', hashes)]
              @ (if truthy add then [(KStr ''urls_to_add'', add)] else [])
              @ (if truthy delete then [(KStr ''urls_to_delete'', delete)] else [])))\<rparr>))
       (\<lambda>response. Inr PNone)"

definition search_files_params :: "pyval \<Rightarrow> pyval \<Rightarrow> pyval \<Rightarrow> error + (string \<times> param) list" where
  "search_files_params tags inbox archive =
     and_then (json_dumps tags) (\<lambda>t.
     and_then (json_dumps inbox) (\<lambda>i.
     and_then (json_dumps archive) (\<lambda>a.
     Inr [(''tags'', t), (''system_inbox'', i), (''system_archive'', a)])))"

definition search_files ::
  "service \<Rightarrow> client \<Rightarrow> pyval \<Rightarrow> pyval \<Rightarrow> pyval \<Rightarrow> (error + pyval) \<times> client" where
  "search_files srv c tags inbox archive =
     or_raise (search_files_params tags inbox archive) c (\<lambda>ps.
       on_response
         (call_endpoint srv c ''GET'' SEARCH_FILES_ENDPOINT (no_kwargs\<lparr>params := Some ps\<rparr>))
         (\<lambda>response. and_then (json_of response) (\<lambda>body. getitem body ''file_ids'')))"

text \<open>
  The innermost loop of \<^verbatim>\<open>file_metadata\<close>, over the snapshot
  \<^verbatim>\<open>list(status_to_tags.items())\<close>, on the dictionary \<^verbatim>\<open>services_to_statuses[service]\<close>:
  the tags are stored under the new key, then the old key is deleted.
\<close>

fun rekey_statuses :: "(key \<times> pyval) list \<Rightarrow> (key \<times> pyval) list \<Rightarrow> error + (key \<times> pyval) list" where
  "rekey_statuses [] d = Inr d"
| "rekey_statuses ((status, tags) # snapshot) d =
     and_then (int_of_key status) (\<lambda>n.
     and_then (TagStatus_by_value (PInt n)) (\<lambda>new_status.
     rekey_statuses snapshot (AList.delete status (AList.update (KTagStatus new_status) tags d))))"

text \<open>The body of the loop over \<^verbatim>\<open>services_to_statuses.items()\<close>, for one service.\<close>

definition rekey_service :: "key \<times> pyval \<Rightarrow> error + key \<times> pyval" where
  "rekey_service entry =
     (case entry of (service, status_to_tags) \<Rightarrow>
        and_then (items_of status_to_tags) (\<lambda>snapshot.
        and_then (rekey_statuses snapshot snapshot) (\<lambda>d.
        Inr (service, PDict d))))"

text \<open>The body of the loop over the file records.\<close>

definition translate_datum :: "pyval \<Rightarrow> error + pyval" where
  "translate_datum datum =
     and_then (getitem datum ''service_names_to_statuses_to_tags'') (\<lambda>services_to_statuses.
     and_then (items_of services_to_statuses) (\<lambda>services.
     and_then (map_err rekey_service services) (\<lambda>services'.
     setitem datum ''service_names_to_statuses_to_tags'' (PDict services'))))"

text \<open>Lines 289 to 295: one entry for each truthy argument, its \<^verbatim>\<open>json.dumps\<close> text.\<close>

definition dumps_if_truthy :: "string \<Rightarrow> pyval \<Rightarrow> error + (string \<times> param) list" where
  "dumps_if_truthy name v =
     (if truthy v then and_then (json_dumps v) (\<lambda>t. Inr [(name, t)]) else Inr [])"

definition file_metadata_params :: "pyval \<Rightarrow> pyval \<Rightarrow> pyval \<Rightarrow> error + (string \<times> param) list" where
  "file_metadata_params hashes file_ids only_identifiers =
     and_then (dumps_if_truthy ''hashes'' hashes) (\<lambda>p1.
     and_then (dumps_if_truthy ''file_ids'' file_ids) (\<lambda>p2.
     and_then (dumps_if_truthy ''only_return_identifiers'' only_identifiers) (\<lambda>p3.
     Inr (p1 @ p2 @ p3))))"

definition file_metadata ::
  "service \<Rightarrow> client \<Rightarrow> pyval \<Rightarrow> pyval \<Rightarrow> pyval \<Rightarrow> (error + pyval) \<times> client" where
  "file_metadata srv c hashes file_ids only_identifiers =
     (if \<not> (truthy hashes \<noteq> truthy file_ids)
      then (Inl (Exception ''hashes (exclusive) or file_ids required''), c)
      else
        or_raise (file_metadata_params hashes file_ids only_identifiers) c (\<lambda>ps.
          on_response
            (call_endpoint srv c ''GET'' FILE_METADATA_ENDPOINT
               (no_kwargs\<lparr>params := Some ps\<rparr>))
            (\<lambda>response.
               and_then (json_of response) (\<lambda>body.
               and_then (getitem body ''metadata'') (\<lambda>metadata.
               if truthy only_identifiers then Inr metadata
               else for_each translate_datum metadata)))))"

definition get_file :: "service \<Rightarrow> client \<Rightarrow> pyval \<Rightarrow> pyval \<Rightarrow> (error + pyval) \<times> client" where
  "get_file srv c hash file_id =
     (if \<not> (truthy hash \<noteq> truthy file_id)
      then (Inl (Exception ''hash (exclusive) or file_id required''), c)
      else
        on_response
          (call_endpoint srv c ''GET'' FILE_ENDPOINT
             (no_kwargs\<lparr>params := Some
                (if truthy hash then [(''hash'', Plain hash)]
                 else if truthy file_id then [(''file_id'', Plain file_id)]
                 else [])\<rparr>))
          (\<lambda>response. Inr (PBytes (content response))))"

definition get_thumbnail :: "service \<Rightarrow> client \<Rightarrow> pyval \<Rightarrow> pyval \<Rightarrow> (error + pyval) \<times> client" where
  "get_thumbnail srv c hash file_id =
     (if \<not> (truthy hash \<noteq> truthy file_id)
      then (Inl (Exception ''hash (exclusive) or file_id required''), c)
      else
        on_response
          (call_endpoint srv c ''GET'' THUMBNAIL_ENDPOINT
             (no_kwargs\<lparr>params := Some
                (if truthy hash then [(''hash'', Plain hash)]
                 else if truthy file_id then [(''file_id'', Plain file_id)]
                 else [])\<rparr>))
          (\<lambda>response. Inr (PBytes (content response))))"

subsection \<open>Any operation\<close>

text \<open>One call of a public method or property of the client, with its arguments.\<close>

datatype operation =
    Api_version
  | Request_new_permissions pyval pyval
  | Verify_access_key
  | Add_file path_or_file
  | Clean_tags pyval
  | Get_tag_services
  | Add_tags pyval pyval pyval
  | Get_url_files pyval
  | Get_url_info pyval
  | Add_url pyval pyval pyval
  | Associate_url pyval pyval pyval
  | Search_files pyval pyval pyval
  | File_metadata pyval pyval pyval
  | Get_file pyval pyval
  | Get_thumbnail pyval pyval

fun invoke :: "service \<Rightarrow> client \<Rightarrow> operation \<Rightarrow> (error + pyval) \<times> client" where
  "invoke srv c Api_version = api_version srv c"
| "invoke srv c (Request_new_permissions name permissions) =
     request_new_permissions srv c name permissions"
| "invoke srv c Verify_access_key = verify_access_key srv c"
| "invoke srv c (Add_file f) = add_file srv c f"
| "invoke srv c (Clean_tags tags) = clean_tags srv c tags"
| "invoke srv c Get_tag_services = get_tag_services srv c"
| "invoke srv c (Add_tags hashes tags actions) = add_tags srv c hashes tags actions"
| "invoke srv c (Get_url_files u) = get_url_files srv c u"
| "invoke srv c (Get_url_info u) = get_url_info srv c u"
| "invoke srv c (Add_url u page tags) = add_url srv c u page tags"
| "invoke srv c (Associate_url hashes add delete) = associate_url srv c hashes add delete"
| "invoke srv c (Search_files tags inbox archive) = search_files srv c tags inbox archive"
| "invoke srv c (File_metadata hashes file_ids only) = file_metadata srv c hashes file_ids only"
| "invoke srv c (Get_file hash file_id) = get_file srv c hash file_id"
| "invoke srv c (Get_thumbnail hash file_id) = get_thumbnail srv c hash file_id"

text \<open>
  An operation reaches the dispatcher when none of the steps before its call of
  \<^verbatim>\<open>_call_endpoint\<close> raises: the type test of \<^verbatim>\<open>add_file\<close>, the identity checks, and
  \<^verbatim>\<open>json.dumps\<close> on the arguments that are serialised.
\<close>

fun dispatches :: "operation \<Rightarrow> bool" where
  "dispatches (Request_new_permissions name permissions) =
     (\<not> isl (request_new_permissions_params name permissions))"
| "dispatches (Add_file (Val (PStr path))) = True"
| "dispatches (Add_file (BytesIO buf pos)) = True"
| "dispatches (Add_file f) = False"
| "dispatches (Clean_tags tags) = (\<not> isl (clean_tags_params tags))"
| "dispatches (Search_files tags inbox archive) =
     (\<not> isl (search_files_params tags inbox archive))"
| "dispatches (File_metadata hashes file_ids only) =
     (truthy hashes \<noteq> truthy file_ids \<and> \<not> isl (file_metadata_params hashes file_ids only))"
| "dispatches (Get_file hash file_id) = (truthy hash \<noteq> truthy file_id)"
| "dispatches (Get_thumbnail hash file_id) = (truthy hash \<noteq> truthy file_id)"
| "dispatches op = True"

section \<open>The re-keying of \<open>file_metadata\<close>, as the specification words it\<close>








text \<open>The value of a header of a request, when the request has it.\<close>

definition request_header :: "request \<Rightarrow> string \<Rightarrow> pyval option" where
  "request_header rq name =
     (case headers (req_kwargs rq) of None \<Rightarrow> None | Some h \<Rightarrow> map_of h name)"

section \<open>Kinds of failure\<close>

text \<open>
  The caller usage error of the identity checks is a bare \<^verbatim>\<open>Exception\<close>; the data-format
  error of an enum lookup is the \<^verbatim>\<open>ValueError\<close> that names the enum class.
\<close>

fun is_usage_error :: "error \<Rightarrow> bool" where
  "is_usage_error (Exception msg) = True"
| "is_usage_error _ = False"

fun is_data_format_error :: "error \<Rightarrow> bool" where
  "is_data_format_error (ValueError (NotAValid v cls)) = True"
| "is_data_format_error _ = False"

definition raises_usage_error :: "error + 'a \<Rightarrow> bool" where
  "raises_usage_error x = (case x of Inl e \<Rightarrow> is_usage_error e | Inr a \<Rightarrow> False)"

section \<open>Basic facts about the dispatcher\<close>

lemma and_then_Inr: "and_then (Inr a) f = f a"
  by (simp add: and_then_def)

lemma and_then_Inl: "and_then (Inl e) f = Inl e"
  by (simp add: and_then_def)

lemmas and_then_simps = and_then_Inr and_then_Inl

lemma snd_on_response: "snd (on_response rc f) = snd rc"
  by (simp add: on_response_def split: prod.splits)

lemma fst_on_response: "fst (on_response rc f) = and_then (fst rc) f"
  by (simp add: on_response_def split: prod.splits)

lemma snd_call_endpoint:
  "snd (call_endpoint srv c m e kw) = c\<lparr>session := session c @ [outbound c m e kw]\<rparr>"
  by (simp add: call_endpoint_def Let_def split: option.splits)

lemma fst_call_endpoint_received:
  "srv (session c) (outbound c m e kw) = Some r \<Longrightarrow>
   fst (call_endpoint srv c m e kw) =
     (if raise_for_status r then
        (if status_code r = 400 then Inl (MissingParameter r)
         else if status_code r \<in> {401, 403} then Inl (InsufficientAccess r)
         else if status_code r = 500 then Inl (ServerError r)
         else Inl (APIError r))
      else Inr r)"
  by (simp add: call_endpoint_def Let_def)

section \<open>Status codes and errors\<close>

text \<open>
  Claim C1, as amended. For every response the dispatcher receives: a status in
  [200,300) returns the response; 400 raises \<open>MissingParameter\<close>; 401 and 403 raise
  \<open>InsufficientAccess\<close>; 500 raises \<open>ServerError\<close>; every other status in [400,600)
  raises the generic \<open>APIError\<close>; a status below 400 or from 600 on (so also 1xx and
  3xx) returns the response without raising; and every error raised carries the
  response.
\<close>

theorem call_endpoint_status_classes:
  assumes "srv (session c) (outbound c m e kw) = Some r"
  shows "(200 \<le> status_code r \<and> status_code r < 300 \<longrightarrow>
            fst (call_endpoint srv c m e kw) = Inr r)
       \<and> (status_code r = 400 \<longrightarrow>
            fst (call_endpoint srv c m e kw) = Inl (MissingParameter r))
       \<and> (status_code r = 401 \<or> status_code r = 403 \<longrightarrow>
            fst (call_endpoint srv c m e kw) = Inl (InsufficientAccess r))
       \<and> (status_code r = 500 \<longrightarrow>
            fst (call_endpoint srv c m e kw) = Inl (ServerError r))
       \<and> (400 \<le> status_code r \<and> status_code r < 600 \<and> status_code r \<notin> {400, 401, 403, 500} \<longrightarrow>
            fst (call_endpoint srv c m e kw) = Inl (APIError r))
       \<and> (status_code r < 400 \<or> 600 \<le> status_code r \<longrightarrow>
            fst (call_endpoint srv c m e kw) = Inr r)
       \<and> (\<forall>err. fst (call_endpoint srv c m e kw) = Inl err \<longrightarrow> error_response err = Some r)"
  using assms fst_call_endpoint_received [of srv c m e kw r]
  by (auto simp: raise_for_status_def)

text \<open>The theorem at a stub that answers 418: the generic \<open>APIError\<close>, holding the response.\<close>

theorem call_endpoint_status_classes_witness:
  "fst (call_endpoint (stub \<lparr>status_code = 418, resp_json = None, content = ''teapot''\<rparr>)
          \<lparr>access_key = PNone, url = ''http://127.0.0.1:45869'', session = []\<rparr>
          ''GET'' ''/api_version'' no_kwargs)
     = Inl (APIError \<lparr>status_code = 418, resp_json = None, content = ''teapot''\<rparr>)"
  using call_endpoint_status_classes
    [of "stub \<lparr>status_code = 418, resp_json = None, content = ''teapot''\<rparr>"
        "\<lparr>access_key = PNone, url = ''http://127.0.0.1:45869'', session = []\<rparr>"
        "''GET''" "''/api_version''" no_kwargs
        "\<lparr>status_code = 418, resp_json = None, content = ''teapot''\<rparr>"]
  by (simp add: stub_def)

text \<open>
  Claim C1 as stated fails at 304, a status outside [200,300): nothing is raised and
  the response goes back to the caller.
\<close>

theorem call_endpoint_304_counterexample:
  "fst (call_endpoint (stub \<lparr>status_code = 304, resp_json = None, content = []\<rparr>)
          \<lparr>access_key = PNone, url = ''http://127.0.0.1:45869'', session = []\<rparr>
          ''GET'' ''/api_version'' no_kwargs)
     = Inr \<lparr>status_code = 304, resp_json = None, content = []\<rparr>
   \<and> \<not> (200 \<le> (304::int) \<and> (304::int) < 300)"
  by (simp add: call_endpoint_def Let_def stub_def raise_for_status_def)

section \<open>The identity checks\<close>

text \<open>No step after the identity check raises the bare \<open>Exception\<close> of the check.\<close>

lemma usage_and_then:
  "\<not> raises_usage_error x \<Longrightarrow> (\<And>a. \<not> raises_usage_error (f a)) \<Longrightarrow>
   \<not> raises_usage_error (and_then x f)"
  by (cases x) (simp_all add: and_then_def raises_usage_error_def)

lemma usage_Inr: "\<not> raises_usage_error (Inr a)"
  by (simp add: raises_usage_error_def)

lemma usage_map_err:
  "(\<And>x. \<not> raises_usage_error (f x)) \<Longrightarrow> \<not> raises_usage_error (map_err f xs)"
proof (induction xs)
  case Nil
  show ?case by (simp add: usage_Inr)
next
  case (Cons x xs)
  from Cons.prems have "\<not> raises_usage_error (f x)" .
  moreover from Cons have "\<not> raises_usage_error (map_err f xs)" by simp
  ultimately show ?case
    by (auto simp: raises_usage_error_def split: sum.splits)
qed

lemma usage_json_of: "\<not> raises_usage_error (json_of r)"
  by (simp add: json_of_def raises_usage_error_def split: option.splits)

lemma usage_getitem: "\<not> raises_usage_error (getitem v k)"
  by (cases v) (simp_all add: raises_usage_error_def split: option.splits)

lemma usage_setitem: "\<not> raises_usage_error (setitem v k x)"
  by (cases v) (simp_all add: raises_usage_error_def)

lemma usage_iter_values: "\<not> raises_usage_error (iter_values v)"
  by (cases v) (simp_all add: raises_usage_error_def)

lemma usage_items_of: "\<not> raises_usage_error (items_of v)"
  by (cases v) (simp_all add: raises_usage_error_def)

lemma usage_enum_by_value: "\<not> raises_usage_error (enum_by_value val ms cls v)"
  by (simp add: enum_by_value_def raises_usage_error_def split: option.splits)

lemma usage_int_of_key: "\<not> raises_usage_error (int_of_key k)"
  by (cases k) (simp_all add: py_int_def Let_def raises_usage_error_def split: option.splits)

lemma usage_rekey_statuses: "\<not> raises_usage_error (rekey_statuses snapshot d)"
proof (induction snapshot arbitrary: d)
  case Nil
  show ?case by (simp add: usage_Inr)
next
  case (Cons entry snapshot)
  obtain status tags where entry: "entry = (status, tags)" by (cases entry)
  show ?case
    unfolding entry rekey_statuses.simps
    by (intro usage_and_then usage_int_of_key Cons.IH)
       (simp add: TagStatus_by_value_def usage_enum_by_value)
qed

lemma usage_rekey_service: "\<not> raises_usage_error (rekey_service entry)"
  by (cases entry)
     (simp add: rekey_service_def usage_and_then usage_items_of usage_rekey_statuses usage_Inr)

lemma usage_translate_datum: "\<not> raises_usage_error (translate_datum datum)"
  unfolding translate_datum_def
  by (intro usage_and_then usage_getitem usage_items_of usage_map_err usage_rekey_service
        usage_setitem)

lemma usage_for_each:
  "(\<And>x. \<not> raises_usage_error (body x)) \<Longrightarrow> \<not> raises_usage_error (for_each body xs)"
  unfolding for_each_def
  by (intro usage_and_then usage_iter_values usage_map_err usage_Inr) simp

lemma usage_call_endpoint: "\<not> raises_usage_error (fst (call_endpoint srv c m e kw))"
  by (simp add: call_endpoint_def Let_def raises_usage_error_def split: option.splits)

lemma usage_on_call:
  "(\<And>r. \<not> raises_usage_error (f r)) \<Longrightarrow>
   \<not> raises_usage_error (fst (on_response (call_endpoint srv c m e kw) f))"
  by (simp add: fst_on_response usage_and_then usage_call_endpoint)

lemma first_error_in: "first_error es = Some e \<Longrightarrow> Some e \<in> set es"
  by (induction es) (auto simp: first_error_def split: if_splits option.splits)

lemma dumps_error_kind:
  "dumps_error v = Some e \<Longrightarrow> e = TypeError \<or> e = ValueError DigitLimitToStr"
proof (induction v arbitrary: e)
  case (PList xs)
  have "Some e \<in> set (map dumps_error xs)"
    by (rule first_error_in) (use PList.prems in simp)
  then obtain x where "x \<in> set xs" and "dumps_error x = Some e" by auto
  with PList.IH show ?case by blast
next
  case (PDict d)
  have "Some e \<in> set (map snd (map (map_prod id dumps_error) d))"
    by (rule first_error_in) (use PDict.prems in simp)
  then obtain kv where kv: "kv \<in> set d" and e: "dumps_error (snd kv) = Some e" by auto
  moreover have "snd kv \<in> Basic_BNFs.snds kv" by (cases kv) simp
  ultimately show ?case using PDict.IH by blast
qed (simp_all split: if_splits)

lemma usage_json_dumps: "\<not> raises_usage_error (json_dumps v)"
  using dumps_error_kind [of v]
  by (auto simp: json_dumps_def raises_usage_error_def split: option.splits)

lemma usage_dumps_if_truthy: "\<not> raises_usage_error (dumps_if_truthy name v)"
  unfolding dumps_if_truthy_def
  by (simp add: usage_and_then usage_json_dumps usage_Inr)

lemma usage_file_metadata_params:
  "\<not> raises_usage_error (file_metadata_params hashes file_ids only)"
  unfolding file_metadata_params_def
  by (intro usage_and_then usage_dumps_if_truthy usage_Inr)

lemma file_metadata_no_usage_error:
  assumes "truthy hashes \<noteq> truthy file_ids"
  shows "\<not> raises_usage_error (fst (file_metadata srv c hashes file_ids only))"
proof (cases "file_metadata_params hashes file_ids only")
  case (Inl e)
  with usage_file_metadata_params [of hashes file_ids only] assms show ?thesis
    by (simp add: file_metadata_def or_raise_def raises_usage_error_def)
next
  case (Inr ps)
  have "\<And>r. \<not> raises_usage_error
      (and_then (json_of r) (\<lambda>body. and_then (getitem body ''metadata'') (\<lambda>metadata.
         if truthy only then Inr metadata else for_each translate_datum metadata)))"
    by (intro usage_and_then usage_json_of usage_getitem)
       (simp add: usage_for_each usage_translate_datum usage_Inr)
  with Inr assms show ?thesis
    by (simp add: file_metadata_def or_raise_def usage_on_call)
qed

lemma get_file_proceeds:
  assumes "truthy h \<noteq> truthy fid"
  shows "\<not> raises_usage_error (fst (get_file srv c h fid))"
    and "\<exists>kw. snd (get_file srv c h fid) =
            c\<lparr>session := session c @ [outbound c ''GET'' FILE_ENDPOINT kw]\<rparr>"
  using assms unfolding get_file_def
  by (auto simp: snd_on_response snd_call_endpoint usage_on_call usage_Inr)

lemma get_thumbnail_proceeds:
  assumes "truthy h \<noteq> truthy fid"
  shows "\<not> raises_usage_error (fst (get_thumbnail srv c h fid))"
    and "\<exists>kw. snd (get_thumbnail srv c h fid) =
            c\<lparr>session := session c @ [outbound c ''GET'' THUMBNAIL_ENDPOINT kw]\<rparr>"
  using assms unfolding get_thumbnail_def
  by (auto simp: snd_on_response snd_call_endpoint usage_on_call usage_Inr)

text \<open>
  Claim C2, as amended. An identity form counts as supplied when it is truthy (not
  \<open>None\<close>, not empty, not zero). For \<open>file_metadata\<close>, \<open>get_file\<close> and \<open>get_thumbnail\<close>:
  when both forms are truthy or neither is, the usage error is raised and the client
  is as it was, so no request was sent; when exactly one is truthy, no usage error is
  raised. Then \<open>get_file\<close> and \<open>get_thumbnail\<close> send exactly one request, to their
  endpoint; \<open>file_metadata\<close> sends exactly one request with the serialised parameters
  when \<open>json.dumps\<close> accepts the arguments it serialises, and otherwise ends with the
  exception of \<open>json.dumps\<close> and the client as it was.
\<close>

theorem identity_check_by_truthiness:
  "(truthy hashes = truthy file_ids \<longrightarrow>
      file_metadata srv c hashes file_ids only =
        (Inl (Exception ''hashes (exclusive) or file_ids required''), c))
   \<and> (truthy h = truthy fid \<longrightarrow>
      get_file srv c h fid = (Inl (Exception ''hash (exclusive) or file_id required''), c))
   \<and> (truthy h = truthy fid \<longrightarrow>
      get_thumbnail srv c h fid = (Inl (Exception ''hash (exclusive) or file_id required''), c))
   \<and> (truthy hashes \<noteq> truthy file_ids \<longrightarrow>
      \<not> raises_usage_error (fst (file_metadata srv c hashes file_ids only)))
   \<and> (truthy hashes \<noteq> truthy file_ids \<and> file_metadata_params hashes file_ids only = Inr ps \<longrightarrow>
      snd (file_metadata srv c hashes file_ids only) =
        c\<lparr>session := session c @
           [outbound c ''GET'' FILE_METADATA_ENDPOINT (no_kwargs\<lparr>params := Some ps\<rparr>)]\<rparr>)
   \<and> (truthy hashes \<noteq> truthy file_ids \<and> file_metadata_params hashes file_ids only = Inl e \<longrightarrow>
      file_metadata srv c hashes file_ids only = (Inl e, c))
   \<and> (truthy h \<noteq> truthy fid \<longrightarrow>
      \<not> raises_usage_error (fst (get_file srv c h fid))
      \<and> (\<exists>kw. snd (get_file srv c h fid) =
            c\<lparr>session := session c @ [outbound c ''GET'' FILE_ENDPOINT kw]\<rparr>))
   \<and> (truthy h \<noteq> truthy fid \<longrightarrow>
      \<not> raises_usage_error (fst (get_thumbnail srv c h fid))
      \<and> (\<exists>kw. snd (get_thumbnail srv c h fid) =
            c\<lparr>session := session c @ [outbound c ''GET'' THUMBNAIL_ENDPOINT kw]\<rparr>))"
proof (intro conjI impI; (elim conjE)?)
  assume "truthy hashes = truthy file_ids"
  then show "file_metadata srv c hashes file_ids only =
        (Inl (Exception ''hashes (exclusive) or file_ids required''), c)"
    by (simp add: file_metadata_def)
next
  assume "truthy h = truthy fid"
  then show "get_file srv c h fid = (Inl (Exception ''hash (exclusive) or file_id required''), c)"
    by (simp add: get_file_def)
next
  assume "truthy h = truthy fid"
  then show "get_thumbnail srv c h fid =
      (Inl (Exception ''hash (exclusive) or file_id required''), c)"
    by (simp add: get_thumbnail_def)
next
  assume "truthy hashes \<noteq> truthy file_ids"
  then show "\<not> raises_usage_error (fst (file_metadata srv c hashes file_ids only))"
    by (rule file_metadata_no_usage_error)
next
  assume "truthy hashes \<noteq> truthy file_ids" and "file_metadata_params hashes file_ids only = Inr ps"
  then show "snd (file_metadata srv c hashes file_ids only) =
        c\<lparr>session := session c @
           [outbound c ''GET'' FILE_METADATA_ENDPOINT (no_kwargs\<lparr>params := Some ps\<rparr>)]\<rparr>"
    by (simp add: file_metadata_def or_raise_def snd_on_response snd_call_endpoint)
next
  assume "truthy hashes \<noteq> truthy file_ids" and "file_metadata_params hashes file_ids only = Inl e"
  then show "file_metadata srv c hashes file_ids only = (Inl e, c)"
    by (simp add: file_metadata_def or_raise_def)
qed (rule get_file_proceeds get_thumbnail_proceeds; assumption)+

text \<open>
  The theorem at a stub: both forms given to \<open>file_metadata\<close> raise with an empty
  session, and \<open>get_file\<close> with a hash alone raises no usage error.
\<close>

theorem identity_check_by_truthiness_witness:
  "file_metadata (stub \<lparr>status_code = 200, resp_json = None, content = []\<rparr>)
      \<lparr>access_key = PNone, url = ''http://127.0.0.1:45869'', session = []\<rparr>
      (PList [PStr ''ab'']) (PList [PInt 1]) PNone
    = (Inl (Exception ''hashes (exclusive) or file_ids required''),
       \<lparr>access_key = PNone, url = ''http://127.0.0.1:45869'', session = []\<rparr>)
   \<and> \<not> raises_usage_error
        (fst (get_file (stub \<lparr>status_code = 200, resp_json = None, content = []\<rparr>)
           \<lparr>access_key = PNone, url = ''http://127.0.0.1:45869'', session = []\<rparr>
           (PStr ''ab'') PNone))"
  using identity_check_by_truthiness
    [where hashes = "PList [PStr ''ab'']" and file_ids = "PList [PInt 1]"
       and srv = "stub \<lparr>status_code = 200, resp_json = None, content = []\<rparr>"
       and c = "\<lparr>access_key = PNone, url = ''http://127.0.0.1:45869'', session = []\<rparr>"
       and only = PNone and h = "PStr ''ab''" and fid = PNone]
  by simp

text \<open>
  Claim C2 as stated fails for \<open>get_file(file_id=0)\<close>: exactly one identity form is
  supplied, and the usage error is raised.
\<close>

theorem get_file_id_zero_counterexample:
  "PInt 0 \<noteq> PNone
   \<and> get_file (stub \<lparr>status_code = 200, resp_json = None, content = ''bytes''\<rparr>)
        \<lparr>access_key = PNone, url = ''http://127.0.0.1:45869'', session = []\<rparr>
        PNone (PInt 0)
     = (Inl (Exception ''hash (exclusive) or file_id required''),
        \<lparr>access_key = PNone, url = ''http://127.0.0.1:45869'', session = []\<rparr>)"
  by (simp add: get_file_def)


section \<open>The base URL\<close>

lemma dropWhile_replicate_append:
  "P x \<Longrightarrow> dropWhile P (replicate n x @ xs) = dropWhile P xs"
  by (induction n) simp_all

lemma rstrip_trailing: "rstrip (u @ replicate n ch) [ch] = rstrip u [ch]"
  by (simp add: rstrip_def dropWhile_replicate_append)

lemma snd_api_version:
  "snd (api_version srv c) =
     c\<lparr>session := session c @ [outbound c ''GET'' API_VERSION_ENDPOINT no_kwargs]\<rparr>"
  by (simp add: api_version_def snd_on_response snd_call_endpoint)

lemma snd_Client_init:
  "snd (Client_init srv k u) =
     \<lparr>access_key = k, url = rstrip u ''/'',
      session = [outbound \<lparr>access_key = k, url = rstrip u ''/'', session = []\<rparr>
                   ''GET'' API_VERSION_ENDPOINT no_kwargs]\<rparr>"
proof -
  let ?c = "\<lparr>access_key = k, url = rstrip u ''/'', session = []\<rparr>"
  obtain r c' where ac: "api_version srv ?c = (r, c')" by (cases "api_version srv ?c")
  with snd_api_version [of srv ?c]
  have "c' = ?c\<lparr>session := session ?c @ [outbound ?c ''GET'' API_VERSION_ENDPOINT no_kwargs]\<rparr>"
    by simp
  with ac show ?thesis
    by (cases r) (simp_all add: Client_init_def)
qed

text \<open>
  Claim C10. A client constructed with base URL \<open>u\<close> and one constructed with \<open>u\<close>
  followed by any number of \<open>/\<close> are the same client after the same construction,
  every operation on them gives the same result and sends the same request, and a
  request goes to the stripped base URL followed by the endpoint path.
\<close>

theorem trailing_slashes_stripped:
  "Client_init srv k (u @ replicate n CHR ''/'') = Client_init srv k u
   \<and> invoke srv (snd (Client_init srv k (u @ replicate n CHR ''/''))) op
       = invoke srv (snd (Client_init srv k u)) op
   \<and> req_url (outbound (snd (Client_init srv k (u @ replicate n CHR ''/''))) m e kw)
       = rstrip u ''/'' @ e"
proof -
  have eq: "Client_init srv k (u @ replicate n CHR ''/'') = Client_init srv k u"
    by (simp add: Client_init_def rstrip_trailing)
  show ?thesis
    unfolding eq by (simp add: snd_Client_init outbound_def)
qed

text \<open>
  The theorem at the default URL with three more slashes and a stub that reports
  version 4, for \<open>get_tag_services\<close>.
\<close>

theorem trailing_slashes_stripped_witness:
  "req_url (outbound
      (snd (Client_init (stub \<lparr>status_code = 200,
                                 resp_json = Some (PDict [(KStr ''version'', PInt 4)]),
                                 content = []\<rparr>) PNone
              (''http://127.0.0.1:45869/'' @ replicate 3 CHR ''/'')))
      ''GET'' GET_TAG_SERVICES_ENDPOINT no_kwargs)
   = ''http://127.0.0.1:45869/add_tags/get_tag_services''"
proof -
  have "rstrip ''http://127.0.0.1:45869/'' ''/'' @ GET_TAG_SERVICES_ENDPOINT
          = ''http://127.0.0.1:45869/add_tags/get_tag_services''"
    by (simp add: rstrip_def GET_TAG_SERVICES_ENDPOINT_def)
  with conjunct2 [OF conjunct2 [OF trailing_slashes_stripped]]
  show ?thesis by (rule trans)
qed

section \<open>Successful calls\<close>

lemma fst_call_endpoint_ok:
  "srv (session c) (outbound c m e kw) = Some r \<Longrightarrow> 200 \<le> status_code r \<Longrightarrow>
   status_code r < 300 \<Longrightarrow> fst (call_endpoint srv c m e kw) = Inr r"
  by (simp add: fst_call_endpoint_received raise_for_status_def)

lemma call_endpoint_ok:
  "srv (session c) (outbound c m e kw) = Some r \<Longrightarrow> 200 \<le> status_code r \<Longrightarrow>
   status_code r < 300 \<Longrightarrow>
   call_endpoint srv c m e kw = (Inr r, c\<lparr>session := session c @ [outbound c m e kw]\<rparr>)"
  using fst_call_endpoint_ok [of srv c m e kw r] snd_call_endpoint [of srv c m e kw]
  by (cases "call_endpoint srv c m e kw") simp

text \<open>
  Claim C6. When the service answers the version request with a 2xx response whose
  body holds a version, the construction completes, it has sent exactly one request
  (\<open>GET\<close> to the stripped base URL followed by \<open>/api_version\<close>), and it emits one
  warning when the reported version differs from \<open>VERSION\<close> and none when they are
  equal.
\<close>

theorem Client_init_version_check:
  assumes "srv [] (outbound \<lparr>access_key = k, url = rstrip u ''/'', session = []\<rparr>
                    ''GET'' API_VERSION_ENDPOINT no_kwargs) = Some r"
    and "200 \<le> status_code r" and "status_code r < 300"
    and "resp_json r = Some (PDict body)"
    and "map_of body (KStr ''version'') = Some v"
  shows "Client_init srv k u =
           (Inr (if int_value v = Some VERSION then [] else [VersionsDiffer VERSION v]),
            \<lparr>access_key = k, url = rstrip u ''/'',
             session = [outbound \<lparr>access_key = k, url = rstrip u ''/'', session = []\<rparr>
                          ''GET'' API_VERSION_ENDPOINT no_kwargs]\<rparr>)"
proof -
  let ?c = "\<lparr>access_key = k, url = rstrip u ''/'', session = []\<rparr>"
  have "call_endpoint srv ?c ''GET'' API_VERSION_ENDPOINT no_kwargs =
          (Inr r, ?c\<lparr>session := session ?c @ [outbound ?c ''GET'' API_VERSION_ENDPOINT no_kwargs]\<rparr>)"
    using assms(1-3) by (intro call_endpoint_ok) simp_all
  then have "api_version srv ?c =
          (Inr v, ?c\<lparr>session := [outbound ?c ''GET'' API_VERSION_ENDPOINT no_kwargs]\<rparr>)"
    using assms(4,5) by (simp add: api_version_def on_response_def and_then_def json_of_def)
  then show ?thesis
    by (simp add: Client_init_def)
qed

text \<open>The theorem at a stub that reports version 5: one warning, one request, no error.\<close>

theorem Client_init_version_check_witness:
  "Client_init
     (stub \<lparr>status_code = 200, resp_json = Some (PDict [(KStr ''version'', PInt 5)]), content = []\<rparr>)
     PNone ''http://127.0.0.1:45869/''
   = (Inr [VersionsDiffer 4 (PInt 5)],
      \<lparr>access_key = PNone, url = ''http://127.0.0.1:45869'',
       session = [\<lparr>req_method = ''GET'', req_url = ''http://127.0.0.1:45869/api_version'',
                   req_kwargs = no_kwargs\<rparr>]\<rparr>)"
proof -
  have strip: "rstrip ''http://127.0.0.1:45869/'' ''/'' = ''http://127.0.0.1:45869''"
    by (simp add: rstrip_def)
  show ?thesis
    using Client_init_version_check
      [of "stub \<lparr>status_code = 200, resp_json = Some (PDict [(KStr ''version'', PInt 5)]),
                  content = []\<rparr>"
          PNone "''http://127.0.0.1:45869/''"
          "\<lparr>status_code = 200, resp_json = Some (PDict [(KStr ''version'', PInt 5)]),
            content = []\<rparr>"
          "[(KStr ''version'', PInt 5)]" "PInt 5"]
    by (simp add: strip stub_def VERSION_def outbound_def attach_access_key_def
          API_VERSION_ENDPOINT_def)
qed

lemma json_dumps_accepts: "dumps_error v = None \<Longrightarrow> json_dumps v = Inr (Dumps v)"
  by (simp add: json_dumps_def)

text \<open>
  Claim C7. When \<open>json.dumps\<close> accepts the three arguments, so that the request is
  made, and the service answers it with a 2xx response whose body holds \<open>file_ids\<close>,
  \<open>search_files\<close> returns that value as it is.
\<close>

theorem search_files_returns_file_ids:
  assumes "dumps_error tags = None" and "dumps_error inbox = None"
    and "dumps_error archive = None"
    and "srv (session c)
             (outbound c ''GET'' SEARCH_FILES_ENDPOINT
                (no_kwargs\<lparr>params := Some [(''tags'', Dumps tags),
                                           (''system_inbox'', Dumps inbox),
                                           (''system_archive'', Dumps archive)]\<rparr>)) = Some r"
    and "200 \<le> status_code r" and "status_code r < 300"
    and "resp_json r = Some (PDict body)"
    and "map_of body (KStr ''file_ids'') = Some ids"
  shows "fst (search_files srv c tags inbox archive) = Inr ids"
proof -
  have "search_files_params tags inbox archive =
          Inr [(''tags'', Dumps tags), (''system_inbox'', Dumps inbox),
               (''system_archive'', Dumps archive)]"
    using assms(1-3) by (simp add: search_files_params_def json_dumps_accepts and_then_simps)
  with assms(4-8) show ?thesis
    by (simp add: search_files_def or_raise_def fst_on_response fst_call_endpoint_ok
          and_then_def json_of_def)
qed

text \<open>The theorem at the stub that returns the ids 1, 2, 3, for the tag \<open>character:x\<close>.\<close>

theorem search_files_returns_file_ids_witness:
  "fst (search_files
     (stub \<lparr>status_code = 200,
            resp_json = Some (PDict [(KStr ''file_ids'', PList [PInt 1, PInt 2, PInt 3])]),
            content = []\<rparr>)
     \<lparr>access_key = PNone, url = ''http://127.0.0.1:45869'', session = []\<rparr>
     (PList [PStr ''character:x'']) (PBool False) (PBool False))
   = Inr (PList [PInt 1, PInt 2, PInt 3])"
  using search_files_returns_file_ids
    [of "PList [PStr ''character:x'']" "PBool False" "PBool False"
        "stub \<lparr>status_code = 200,
            resp_json = Some (PDict [(KStr ''file_ids'', PList [PInt 1, PInt 2, PInt 3])]),
            content = []\<rparr>"
        "\<lparr>access_key = PNone, url = ''http://127.0.0.1:45869'', session = []\<rparr>"
        "\<lparr>status_code = 200,
            resp_json = Some (PDict [(KStr ''file_ids'', PList [PInt 1, PInt 2, PInt 3])]),
            content = []\<rparr>"
        "[(KStr ''file_ids'', PList [PInt 1, PInt 2, PInt 3])]"
        "PList [PInt 1, PInt 2, PInt 3]"]
  by (simp add: stub_def first_error_def)


section \<open>The access key\<close>

lemma outbound_header_key:
  "request_header (outbound c m e kw) ACCESS_KEY_HEADER =
     (if truthy (access_key c) then Some (access_key c)
      else (case headers kw of None \<Rightarrow> None | Some h \<Rightarrow> map_of h ACCESS_KEY_HEADER))"
  by (simp add: request_header_def outbound_def attach_access_key_def update_conv')

lemma outbound_header_other:
  "name \<noteq> ACCESS_KEY_HEADER \<Longrightarrow>
   request_header (outbound c m e kw) name =
     (case headers kw of None \<Rightarrow> None | Some h \<Rightarrow> map_of h name)"
  by (simp add: request_header_def outbound_def attach_access_key_def update_conv'
        split: option.splits)

lemma outbound_body:
  "json (req_kwargs (outbound c m e kw)) = json kw"
  "data (req_kwargs (outbound c m e kw)) = data kw"
  "params (req_kwargs (outbound c m e kw)) = params kw"
  "req_method (outbound c m e kw) = m"
  "req_url (outbound c m e kw) = url c @ e"
  by (simp_all add: outbound_def attach_access_key_def)

lemma one_request:
  assumes "(case headers kw of None \<Rightarrow> None | Some h \<Rightarrow> map_of h ACCESS_KEY_HEADER) = None"
  shows "\<exists>rq. snd (on_response (call_endpoint srv c m e kw) f) = c\<lparr>session := session c @ [rq]\<rparr>
           \<and> request_header rq ACCESS_KEY_HEADER =
                 (if truthy (access_key c) then Some (access_key c) else None)"
proof -
  have "request_header (outbound c m e kw) ACCESS_KEY_HEADER =
          (if truthy (access_key c) then Some (access_key c) else None)"
    by (simp add: outbound_header_key assms)
  then show ?thesis
    unfolding snd_on_response snd_call_endpoint by blast
qed

lemma one_request_params:
  "\<exists>rq. snd (on_response (call_endpoint srv c m e (no_kwargs\<lparr>params := ps\<rparr>)) f) =
            c\<lparr>session := session c @ [rq]\<rparr>
         \<and> request_header rq ACCESS_KEY_HEADER =
               (if truthy (access_key c) then Some (access_key c) else None)"
  by (rule one_request) (simp add: no_kwargs_def)

lemma one_request_json:
  "\<exists>rq. snd (on_response (call_endpoint srv c m e (no_kwargs\<lparr>json := j\<rparr>)) f) =
            c\<lparr>session := session c @ [rq]\<rparr>
         \<and> request_header rq ACCESS_KEY_HEADER =
               (if truthy (access_key c) then Some (access_key c) else None)"
  by (rule one_request) (simp add: no_kwargs_def)

lemma one_request_plain:
  "\<exists>rq. snd (on_response (call_endpoint srv c m e no_kwargs) f) =
            c\<lparr>session := session c @ [rq]\<rparr>
         \<and> request_header rq ACCESS_KEY_HEADER =
               (if truthy (access_key c) then Some (access_key c) else None)"
  by (rule one_request) (simp add: no_kwargs_def)

lemma one_request_octet_stream:
  "\<exists>rq. snd (on_response (call_endpoint srv c m e
                 (no_kwargs\<lparr>data := bytes,
                            headers := Some [(''Content-Type'', PStr ''application/octet-stream'')]\<rparr>)) f) =
            c\<lparr>session := session c @ [rq]\<rparr>
         \<and> request_header rq ACCESS_KEY_HEADER =
               (if truthy (access_key c) then Some (access_key c) else None)"
  by (rule one_request) (simp add: no_kwargs_def ACCESS_KEY_HEADER_def)

lemma not_isl_Inr: "\<not> isl x \<Longrightarrow> \<exists>p. x = Inr p"
  by (cases x) simp_all

lemma add_file_dispatches:
  assumes "dispatches (Add_file f)"
  shows "\<exists>rq. snd (add_file srv c f) = c\<lparr>session := session c @ [rq]\<rparr>
           \<and> request_header rq ACCESS_KEY_HEADER =
                 (if truthy (access_key c) then Some (access_key c) else None)"
proof (cases f)
  case (Val v)
  with assms obtain path where "v = PStr path" by (cases v) simp_all
  with Val show ?thesis by (simp add: one_request_json)
next
  case (BytesIO buf pos)
  then show ?thesis by (simp add: one_request_octet_stream)
next
  case (BufferedReader buf pos)
  with assms show ?thesis by simp
qed

lemma add_file_not_dispatches:
  assumes "\<not> dispatches (Add_file f)"
  shows "snd (add_file srv c f) = c"
proof (cases f)
  case (Val v)
  with assms show ?thesis by (cases v) simp_all
next
  case (BytesIO buf pos)
  with assms show ?thesis by simp
next
  case (BufferedReader buf pos)
  then show ?thesis by simp
qed

lemma invoke_dispatches:
  assumes "dispatches op"
  shows "\<exists>rq. snd (invoke srv c op) = c\<lparr>session := session c @ [rq]\<rparr>
           \<and> request_header rq ACCESS_KEY_HEADER =
                 (if truthy (access_key c) then Some (access_key c) else None)"
proof (cases op)
  case (Request_new_permissions name permissions)
  with assms obtain ps where "request_new_permissions_params name permissions = Inr ps"
    using not_isl_Inr by auto
  with Request_new_permissions show ?thesis
    by (simp add: request_new_permissions_def or_raise_def one_request_params)
next
  case (Add_file f)
  with assms show ?thesis by (simp add: add_file_dispatches)
next
  case (Clean_tags tags)
  with assms obtain ps where "clean_tags_params tags = Inr ps"
    using not_isl_Inr by auto
  with Clean_tags show ?thesis
    by (simp add: clean_tags_def or_raise_def one_request_params)
next
  case (Search_files tags inbox archive)
  with assms obtain ps where "search_files_params tags inbox archive = Inr ps"
    using not_isl_Inr by auto
  with Search_files show ?thesis
    by (simp add: search_files_def or_raise_def one_request_params)
next
  case (File_metadata hashes file_ids only)
  with assms obtain ps where "truthy hashes \<noteq> truthy file_ids"
    and "file_metadata_params hashes file_ids only = Inr ps"
    using not_isl_Inr by auto
  with File_metadata show ?thesis
    by (simp add: file_metadata_def or_raise_def one_request_params)
next
  case (Get_file h fid)
  with assms show ?thesis by (simp add: get_file_def one_request_params)
next
  case (Get_thumbnail h fid)
  with assms show ?thesis by (simp add: get_thumbnail_def one_request_params)
qed (simp_all add: api_version_def verify_access_key_def get_tag_services_def add_tags_def
      get_url_files_def get_url_info_def add_url_def associate_url_def one_request_params
      one_request_json one_request_plain)

lemma invoke_not_dispatches:
  assumes "\<not> dispatches op"
  shows "snd (invoke srv c op) = c"
proof (cases op)
  case (Request_new_permissions name permissions)
  with assms show ?thesis
    by (cases "request_new_permissions_params name permissions")
       (simp_all add: request_new_permissions_def or_raise_def)
next
  case (Add_file f)
  with assms show ?thesis by (simp add: add_file_not_dispatches)
next
  case (Clean_tags tags)
  with assms show ?thesis
    by (cases "clean_tags_params tags") (simp_all add: clean_tags_def or_raise_def)
next
  case (Search_files tags inbox archive)
  with assms show ?thesis
    by (cases "search_files_params tags inbox archive")
       (simp_all add: search_files_def or_raise_def)
next
  case (File_metadata hashes file_ids only)
  with assms show ?thesis
    by (cases "file_metadata_params hashes file_ids only")
       (auto simp: file_metadata_def or_raise_def)
next
  case (Get_file h fid)
  with assms show ?thesis by (simp add: get_file_def)
next
  case (Get_thumbnail h fid)
  with assms show ?thesis by (simp add: get_thumbnail_def)
qed (use assms in simp_all)

lemma Client_init_request:
  "\<exists>rq. snd (Client_init srv k u) = \<lparr>access_key = k, url = rstrip u ''/'', session = [rq]\<rparr>
        \<and> request_header rq ACCESS_KEY_HEADER = (if truthy k then Some k else None)"
  unfolding snd_Client_init
  by (simp add: outbound_header_key no_kwargs_def)

lemma invoke_requests:
  "\<exists>new. session (snd (invoke srv c op)) = session c @ new
      \<and> list_all (\<lambda>rq. request_header rq ACCESS_KEY_HEADER =
            (if truthy (access_key c) then Some (access_key c) else None)) new"
proof (cases "dispatches op")
  case True
  from invoke_dispatches [OF this, of srv c] obtain rq
    where "snd (invoke srv c op) = c\<lparr>session := session c @ [rq]\<rparr>"
      and "request_header rq ACCESS_KEY_HEADER =
             (if truthy (access_key c) then Some (access_key c) else None)"
    by blast
  then have "session (snd (invoke srv c op)) = session c @ [rq]
      \<and> list_all (\<lambda>rq. request_header rq ACCESS_KEY_HEADER =
            (if truthy (access_key c) then Some (access_key c) else None)) [rq]"
    by simp
  then show ?thesis by blast
next
  case False
  from invoke_not_dispatches [OF this, of srv c]
  have "session (snd (invoke srv c op)) = session c @ []
      \<and> list_all (\<lambda>rq. request_header rq ACCESS_KEY_HEADER =
            (if truthy (access_key c) then Some (access_key c) else None)) []"
    by simp
  then show ?thesis by blast
qed

text \<open>
  Claim C8. A credential is present when the access key is truthy. Every operation
  that reaches the dispatcher sends exactly one request, and that request carries the
  access key under the header \<open>Hydrus-Client-API-Access-Key\<close> when the key is present
  and has no such header when it is not; an operation that raises before the
  dispatcher sends nothing. No operation changes the access key of the client. The
  constructor stores the key it is given and sends exactly one request, with the
  header under the same rule.
\<close>

theorem access_key_header_attached:
  "(dispatches op \<longrightarrow>
      (\<exists>rq. snd (invoke srv c op) = c\<lparr>session := session c @ [rq]\<rparr>
         \<and> request_header rq ACCESS_KEY_HEADER =
               (if truthy (access_key c) then Some (access_key c) else None)))
   \<and> (\<not> dispatches op \<longrightarrow> snd (invoke srv c op) = c)
   \<and> access_key (snd (invoke srv c op)) = access_key c
   \<and> (\<exists>rq. snd (Client_init srv k u) = \<lparr>access_key = k, url = rstrip u ''/'', session = [rq]\<rparr>
         \<and> request_header rq ACCESS_KEY_HEADER = (if truthy k then Some k else None))"
proof -
  have "access_key (snd (invoke srv c op)) = access_key c"
  proof (cases "dispatches op")
    case True
    from invoke_dispatches [OF this, of srv c] show ?thesis by auto
  next
    case False
    from invoke_not_dispatches [OF this, of srv c] show ?thesis by simp
  qed
  then show ?thesis
    using invoke_dispatches [of op srv c] invoke_not_dispatches [of op srv c]
      Client_init_request [of srv k u]
    by blast
qed

text \<open>
  The theorem at a client constructed with a key against a stub that reports version 4,
  and then asked for the tag services: two requests, each with the key.
\<close>

theorem access_key_header_attached_witness:
  "map (\<lambda>rq. request_header rq ACCESS_KEY_HEADER)
     (session (snd (invoke
        (stub \<lparr>status_code = 200, resp_json = Some (PDict [(KStr ''version'', PInt 4)]),
               content = []\<rparr>)
        (snd (Client_init
           (stub \<lparr>status_code = 200, resp_json = Some (PDict [(KStr ''version'', PInt 4)]),
                  content = []\<rparr>)
           (PStr ''0123abcd'') ''http://127.0.0.1:45869/''))
        Get_tag_services)))
   = [Some (PStr ''0123abcd''), Some (PStr ''0123abcd'')]
   \<and> fst (Client_init
        (stub \<lparr>status_code = 200, resp_json = Some (PDict [(KStr ''version'', PInt 4)]),
               content = []\<rparr>)
        (PStr ''0123abcd'') ''http://127.0.0.1:45869/'') = Inr []"
proof -
  let ?S = "stub \<lparr>status_code = 200, resp_json = Some (PDict [(KStr ''version'', PInt 4)]),
                   content = []\<rparr>"
  let ?c = "snd (Client_init ?S (PStr ''0123abcd'') ''http://127.0.0.1:45869/'')"
  note inst = access_key_header_attached
    [where srv = ?S and c = ?c and op = Get_tag_services and k = "PStr ''0123abcd''"
       and u = "''http://127.0.0.1:45869/''"]
  from inst obtain rq1 where c: "?c = \<lparr>access_key = PStr ''0123abcd'',
        url = rstrip ''http://127.0.0.1:45869/'' ''/'', session = [rq1]\<rparr>"
    and rq1: "request_header rq1 ACCESS_KEY_HEADER = Some (PStr ''0123abcd'')"
    by auto
  from inst obtain rq2 where c': "snd (invoke ?S ?c Get_tag_services) = ?c\<lparr>session := session ?c @ [rq2]\<rparr>"
    and rq2: "request_header rq2 ACCESS_KEY_HEADER =
        (if truthy (access_key ?c) then Some (access_key ?c) else None)"
    by auto
  have "access_key ?c = PStr ''0123abcd''" and "session ?c = [rq1]"
    by (simp_all add: c)
  with rq2 c' rq1
  have "map (\<lambda>rq. request_header rq ACCESS_KEY_HEADER) (session (snd (invoke ?S ?c Get_tag_services)))
        = [Some (PStr ''0123abcd''), Some (PStr ''0123abcd'')]"
    by simp
  moreover have "fst (Client_init ?S (PStr ''0123abcd'') ''http://127.0.0.1:45869/'') = Inr []"
    by (simp add: Client_init_def api_version_def on_response_def call_endpoint_def stub_def
          raise_for_status_def json_of_def and_then_def VERSION_def)
  ultimately show ?thesis by simp
qed

lemma outbound_falsy:
  "\<not> truthy k \<Longrightarrow>
   outbound (c\<lparr>access_key := k\<rparr>) m e kw = \<lparr>req_method = m, req_url = url c @ e, req_kwargs = kw\<rparr>"
  by (simp add: outbound_def attach_access_key_def)

lemma call_endpoint_falsy:
  assumes "\<not> truthy k" and "\<not> truthy k'"
  shows "call_endpoint srv (c\<lparr>access_key := k\<rparr>) m e kw =
           map_prod id (\<lambda>c'. c'\<lparr>access_key := k\<rparr>) (call_endpoint srv (c\<lparr>access_key := k'\<rparr>) m e kw)"
  using assms
  by (simp add: call_endpoint_def Let_def outbound_falsy split: option.splits)

lemma on_response_map_prod:
  "on_response (map_prod id g rc) f = map_prod id g (on_response rc f)"
  by (cases rc) (simp add: on_response_def)

lemma on_call_falsy:
  assumes "\<not> truthy k" and "\<not> truthy k'"
  shows "on_response (call_endpoint srv (c\<lparr>access_key := k\<rparr>) m e kw) f =
           map_prod id (\<lambda>c'. c'\<lparr>access_key := k\<rparr>)
             (on_response (call_endpoint srv (c\<lparr>access_key := k'\<rparr>) m e kw) f)"
  by (simp add: call_endpoint_falsy [OF assms] on_response_map_prod)

lemma add_file_falsy:
  assumes "\<not> truthy k" and "\<not> truthy k'"
  shows "add_file srv (c\<lparr>access_key := k\<rparr>) f =
           map_prod id (\<lambda>c'. c'\<lparr>access_key := k\<rparr>) (add_file srv (c\<lparr>access_key := k'\<rparr>) f)"
proof (cases f)
  case (Val v)
  then show ?thesis
    by (cases v) (simp_all add: on_call_falsy [OF assms])
next
  case (BytesIO buf pos)
  then show ?thesis by (simp add: on_call_falsy [OF assms])
next
  case (BufferedReader buf pos)
  then show ?thesis by simp
qed

lemma invoke_falsy:
  assumes "\<not> truthy k" and "\<not> truthy k'"
  shows "invoke srv (c\<lparr>access_key := k\<rparr>) op =
           map_prod id (\<lambda>c'. c'\<lparr>access_key := k\<rparr>) (invoke srv (c\<lparr>access_key := k'\<rparr>) op)"
proof (cases op)
  case (Add_file f)
  then show ?thesis by (simp add: add_file_falsy [OF assms])
next
  case (File_metadata hashes file_ids only)
  then show ?thesis
    by (simp add: file_metadata_def on_call_falsy [OF assms] or_raise_def split: sum.splits)
next
  case (Get_file h fid)
  then show ?thesis by (simp add: get_file_def on_call_falsy [OF assms])
next
  case (Get_thumbnail h fid)
  then show ?thesis by (simp add: get_thumbnail_def on_call_falsy [OF assms])
qed (simp_all add: api_version_def request_new_permissions_def verify_access_key_def
      clean_tags_def get_tag_services_def add_tags_def get_url_files_def get_url_info_def
      add_url_def associate_url_def search_files_def on_call_falsy [OF assms] or_raise_def
      split: sum.splits)

lemma Client_init_falsy:
  assumes "\<not> truthy k" and "\<not> truthy k'"
  shows "Client_init srv k u = map_prod id (\<lambda>c'. c'\<lparr>access_key := k\<rparr>) (Client_init srv k' u)"
proof -
  let ?c = "\<lparr>access_key = k', url = rstrip u ''/'', session = []\<rparr>"
  have c: "\<lparr>access_key = k, url = rstrip u ''/'', session = []\<rparr> = ?c\<lparr>access_key := k\<rparr>"
    and c': "?c = ?c\<lparr>access_key := k'\<rparr>"
    by simp_all
  have "api_version srv (?c\<lparr>access_key := k\<rparr>) =
          map_prod id (\<lambda>c'. c'\<lparr>access_key := k\<rparr>) (api_version srv (?c\<lparr>access_key := k'\<rparr>))"
    using invoke_falsy [OF assms, of srv ?c Api_version] by simp
  then show ?thesis
    unfolding Client_init_def Let_def c
    by (cases "api_version srv ?c") (auto split: sum.splits)
qed

text \<open>
  Claim C9. A client with the empty string as access key and a client with no access
  key give the same result for every operation and for the construction, and end in
  the same state but for the stored key itself; no request of the first carries the
  access key header.
\<close>

theorem empty_access_key_as_none:
  "invoke srv (c\<lparr>access_key := PStr ''''\<rparr>) op =
     map_prod id (\<lambda>c'. c'\<lparr>access_key := PStr ''''\<rparr>) (invoke srv (c\<lparr>access_key := PNone\<rparr>) op)
   \<and> Client_init srv (PStr '''') u =
     map_prod id (\<lambda>c'. c'\<lparr>access_key := PStr ''''\<rparr>) (Client_init srv PNone u)
   \<and> (\<exists>new. session (snd (invoke srv (c\<lparr>access_key := PStr ''''\<rparr>) op)) = session c @ new
        \<and> list_all (\<lambda>rq. request_header rq ACCESS_KEY_HEADER = None) new)
   \<and> list_all (\<lambda>rq. request_header rq ACCESS_KEY_HEADER = None)
        (session (snd (Client_init srv (PStr '''') u)))"
proof -
  have falsy: "\<not> truthy (PStr '''')" "\<not> truthy PNone" by simp_all
  from Client_init_request [of srv "PStr ''''" u]
  have init: "list_all (\<lambda>rq. request_header rq ACCESS_KEY_HEADER = None)
        (session (snd (Client_init srv (PStr '''') u)))"
    by auto
  from invoke_requests [of srv "c\<lparr>access_key := PStr ''''\<rparr>" op]
  have "\<exists>new. session (snd (invoke srv (c\<lparr>access_key := PStr ''''\<rparr>) op)) = session c @ new
        \<and> list_all (\<lambda>rq. request_header rq ACCESS_KEY_HEADER = None) new"
    by simp
  with init invoke_falsy [OF falsy] Client_init_falsy [OF falsy] show ?thesis
    by blast
qed

text \<open>The theorem at the constructor, against a stub that reports version 4.\<close>

theorem empty_access_key_as_none_witness:
  "Client_init
     (stub \<lparr>status_code = 200, resp_json = Some (PDict [(KStr ''version'', PInt 4)]),
            content = []\<rparr>) (PStr '''') ''http://h/''
   = map_prod id (\<lambda>c'. c'\<lparr>access_key := PStr ''''\<rparr>)
       (Client_init
          (stub \<lparr>status_code = 200, resp_json = Some (PDict [(KStr ''version'', PInt 4)]),
                 content = []\<rparr>) PNone ''http://h/'')"
  using empty_access_key_as_none
      [of "stub \<lparr>status_code = 200, resp_json = Some (PDict [(KStr ''version'', PInt 4)]),
                  content = []\<rparr>"
          "\<lparr>access_key = PNone, url = [], session = []\<rparr>" Api_version "''http://h/''"]
  by simp


section \<open>The argument of \<open>add_file\<close>\<close>

text \<open>
  What \<open>add_file\<close> does with each kind of argument: a string is sent as the JSON body
  \<open>{"path": path}\<close>; an \<open>io.BytesIO\<close> is sent as the request body, what \<open>read()\<close>
  returns, with the header \<open>Content-Type: application/octet-stream\<close>; every other
  argument raises the \<open>ValueError\<close> and leaves the client as it was.
\<close>

lemma add_file_by_argument:
  "snd (add_file srv c (Val (PStr path))) =
     c\<lparr>session := session c @
        [outbound c ''POST'' ADD_FILE_ENDPOINT
           (no_kwargs\<lparr>json := Some (PDict [(KStr ''path'', PStr path)])\<rparr>)]\<rparr>
   \<and> json (req_kwargs (outbound c ''POST'' ADD_FILE_ENDPOINT
           (no_kwargs\<lparr>json := Some (PDict [(KStr ''path'', PStr path)])\<rparr>)))
       = Some (PDict [(KStr ''path'', PStr path)])
   \<and> snd (add_file srv c (BytesIO buf pos)) =
     c\<lparr>session := session c @
        [outbound c ''POST'' ADD_FILE_ENDPOINT
           (no_kwargs\<lparr>data := Some (drop pos buf),
                      headers := Some [(''Content-Type'', PStr ''application/octet-stream'')]\<rparr>)]\<rparr>
   \<and> data (req_kwargs (outbound c ''POST'' ADD_FILE_ENDPOINT
           (no_kwargs\<lparr>data := Some (drop pos buf),
                      headers := Some [(''Content-Type'', PStr ''application/octet-stream'')]\<rparr>)))
       = Some (drop pos buf)
   \<and> request_header (outbound c ''POST'' ADD_FILE_ENDPOINT
           (no_kwargs\<lparr>data := Some (drop pos buf),
                      headers := Some [(''Content-Type'', PStr ''application/octet-stream'')]\<rparr>))
         ''Content-Type''
       = Some (PStr ''application/octet-stream'')
   \<and> ((\<forall>p. f \<noteq> Val (PStr p)) \<and> (\<forall>b n. f \<noteq> BytesIO b n) \<longrightarrow>
        add_file srv c f = (Inl (ValueError (Message ''Value must be file object or path'')), c))"
proof -
  have other: "add_file srv c f = (Inl (ValueError (Message ''Value must be file object or path'')), c)"
    if "\<forall>p. f \<noteq> Val (PStr p)" and "\<forall>b n. f \<noteq> BytesIO b n"
  proof (cases f)
    case (Val v)
    with that show ?thesis by (cases v) simp_all
  next
    case (BytesIO b n)
    with that show ?thesis by simp
  next
    case (BufferedReader b n)
    then show ?thesis by simp
  qed
  have "''Content-Type'' \<noteq> ACCESS_KEY_HEADER" by (simp add: ACCESS_KEY_HEADER_def)
  then show ?thesis
    using other
    by (simp add: snd_on_response snd_call_endpoint outbound_body outbound_header_other
          no_kwargs_def)
qed

text \<open>
  Claim C5 says that a binary stream is sent as the request body, and the docstring of
  \<open>add_file\<close> promises the same for "a readable file object". The code tests for
  \<open>io.BytesIO\<close> only. The buffered reader that \<open>open(path, 'rb')\<close> returns is a binary
  stream and a readable file object, and for it \<open>add_file\<close> raises
  \<open>ValueError('Value must be file object or path')\<close> without sending a request,
  although the same bytes in an \<open>io.BytesIO\<close> are sent as the request body.
\<close>

theorem add_file_buffered_reader_rejected:
  "add_file (stub \<lparr>status_code = 200,
                   resp_json = Some (PDict [(KStr ''status'', PInt 1)]), content = []\<rparr>)
     \<lparr>access_key = PNone, url = ''http://127.0.0.1:45869'', session = []\<rparr>
     (BufferedReader ''GIF89a'' 0)
   = (Inl (ValueError (Message ''Value must be file object or path'')),
      \<lparr>access_key = PNone, url = ''http://127.0.0.1:45869'', session = []\<rparr>)
   \<and> add_file (stub \<lparr>status_code = 200,
                   resp_json = Some (PDict [(KStr ''status'', PInt 1)]), content = []\<rparr>)
     \<lparr>access_key = PNone, url = ''http://127.0.0.1:45869'', session = []\<rparr>
     (BytesIO ''GIF89a'' 0)
   = (Inr (PDict [(KStr ''status'', PImportStatus Success)]),
      \<lparr>access_key = PNone, url = ''http://127.0.0.1:45869'',
       session = [\<lparr>req_method = ''POST'',
                   req_url = ''http://127.0.0.1:45869/add_files/add_file'',
                   req_kwargs = \<lparr>headers = Some [(''Content-Type'',
                                                   PStr ''application/octet-stream'')],
                                 params = None, json = None, data = Some ''GIF89a''\<rparr>\<rparr>]\<rparr>)"
  by (simp add: on_response_def call_endpoint_def outbound_def attach_access_key_def stub_def
        raise_for_status_def import_status_of_def json_of_def and_then_def
        ImportStatus_by_value_def enum_by_value_def ImportStatus_members_def no_kwargs_def
        ADD_FILE_ENDPOINT_def)

section \<open>Enumerated fields\<close>

lemma fst_on_call_ok:
  assumes "\<And>rq. srv (session c) rq = Some r" and "200 \<le> status_code r" and "status_code r < 300"
  shows "fst (on_response (call_endpoint srv c m e kw) f) = f r"
  using assms by (simp add: fst_on_response fst_call_endpoint_ok and_then_Inr)

lemma enum_by_value_invalid:
  "(\<forall>m. val m \<noteq> n) \<Longrightarrow>
   enum_by_value val ms cls (PInt n) = Inl (ValueError (NotAValid (PInt n) cls))"
  by (simp add: and_then_simps enum_by_value_def find_None_iff split: option.splits)

lemma enum_by_value_error:
  "enum_by_value val ms cls v = Inl e \<Longrightarrow> e = ValueError (NotAValid v cls)"
  by (auto simp: and_then_simps enum_by_value_def split: option.splits)

lemma ImportStatus_by_value_member:
  "ImportStatus_by_value (PInt (ImportStatus_value m)) = Inr m"
  by (cases m) (simp_all add: and_then_simps ImportStatus_by_value_def enum_by_value_def ImportStatus_members_def)

lemma URLType_by_value_member:
  "URLType_by_value (PInt (URLType_value m)) = Inr m"
  by (cases m) (simp_all add: and_then_simps URLType_by_value_def enum_by_value_def URLType_members_def)

lemma Permission_by_value_member:
  "Permission_by_value (PInt (Permission_value m)) = Inr m"
  by (cases m) (simp_all add: and_then_simps Permission_by_value_def enum_by_value_def Permission_members_def)

lemma TagStatus_by_value_member:
  "TagStatus_by_value (PInt (TagStatus_value m)) = Inr m"
  by (cases m) (simp_all add: and_then_simps TagStatus_by_value_def enum_by_value_def TagStatus_members_def)

lemma map_err_map_Inr:
  "(\<And>a. a \<in> set xs \<Longrightarrow> f (h a) = Inr (g a)) \<Longrightarrow> map_err f (map h xs) = Inr (map g xs)"
  by (induction xs) simp_all

lemma map_err_first_error:
  assumes "\<And>x e. x \<in> set xs \<Longrightarrow> f x = Inl e \<Longrightarrow> P e"
    and "\<exists>x\<in>set xs. \<exists>e. f x = Inl e"
  shows "\<exists>e. map_err f xs = Inl e \<and> P e"
  using assms
proof (induction xs)
  case Nil
  then show ?case by simp
next
  case (Cons x xs)
  show ?case
  proof (cases "f x")
    case (Inl e)
    with Cons.prems(1) [of x e] show ?thesis by simp
  next
    case (Inr y)
    with Cons.prems(2) have "\<exists>x\<in>set xs. \<exists>e. f x = Inl e" by auto
    with Cons.IH Cons.prems(1) obtain e where "map_err f xs = Inl e" and "P e"
      by (metis list.set_intros(2))
    with Inr show ?thesis by simp
  qed
qed

lemma data_format_error_distinct:
  "is_data_format_error e \<Longrightarrow>
   \<not> is_api_error e \<and> \<not> is_usage_error e
   \<and> e \<noteq> ValueError (Message ''Value must be file object or path'')"
  by (cases e rule: is_data_format_error.cases) simp_all

lemma import_status_of_member:
  "resp_json r = Some (PDict d) \<Longrightarrow>
   map_of d (KStr ''status'') = Some (PInt (ImportStatus_value m)) \<Longrightarrow>
   import_status_of r = Inr (PDict (AList.update (KStr ''status'') (PImportStatus m) d))"
  by (simp add: and_then_simps import_status_of_def json_of_def ImportStatus_by_value_member)

lemma import_status_of_invalid:
  "resp_json r = Some (PDict d) \<Longrightarrow> map_of d (KStr ''status'') = Some (PInt n) \<Longrightarrow>
   \<forall>m. ImportStatus_value m \<noteq> n \<Longrightarrow>
   import_status_of r = Inl (ValueError (NotAValid (PInt n) ''ImportStatus''))"
  by (simp add: and_then_simps import_status_of_def json_of_def ImportStatus_by_value_def enum_by_value_invalid)

lemma translate_file_status_member:
  "map_of fd (KStr ''status'') = Some (PInt (ImportStatus_value m)) \<Longrightarrow>
   translate_file_status (PDict fd) =
     Inr (PDict (AList.update (KStr ''status'') (PImportStatus m) fd))"
  by (simp add: and_then_simps translate_file_status_def ImportStatus_by_value_member)

lemma translate_file_status_error:
  assumes "map_of fd (KStr ''status'') = Some (PInt n)"
    and "translate_file_status (PDict fd) = Inl e"
  shows "(\<forall>m. ImportStatus_value m \<noteq> n) \<and> e = ValueError (NotAValid (PInt n) ''ImportStatus'')"
proof (cases "\<exists>m. ImportStatus_value m = n")
  case True
  then obtain m where "n = ImportStatus_value m" by auto
  with assms show ?thesis by (simp add: and_then_simps translate_file_status_member)
next
  case False
  with assms show ?thesis
    by (simp add: and_then_simps translate_file_status_def ImportStatus_by_value_def enum_by_value_invalid)
qed

lemma Permission_by_value_error:
  assumes "Permission_by_value (PInt n) = Inl e"
  shows "(\<forall>p. Permission_value p \<noteq> n) \<and> e = ValueError (NotAValid (PInt n) ''Permission'')"
proof (cases "\<exists>p. Permission_value p = n")
  case True
  then obtain p where "n = Permission_value p" by auto
  with assms show ?thesis by (simp add: and_then_simps Permission_by_value_member)
next
  case False
  with assms show ?thesis
    by (simp add: and_then_simps Permission_by_value_def enum_by_value_invalid)
qed

lemma add_file_on_call:
  "f = Val (PStr p) \<or> f = BytesIO b k \<Longrightarrow>
   \<exists>kw. add_file srv c f = on_response (call_endpoint srv c ''POST'' ADD_FILE_ENDPOINT kw) import_status_of"
  by auto

lemma fst_add_file_ok:
  assumes "\<And>rq. srv (session c) rq = Some r" and "200 \<le> status_code r" and "status_code r < 300"
    and "f = Val (PStr p) \<or> f = BytesIO b k"
  shows "fst (add_file srv c f) = import_status_of r"
  using add_file_on_call [OF assms(4), of srv c] fst_on_call_ok [of srv c r, OF assms(1-3)] by auto

lemma fst_get_url_info_ok:
  assumes "\<And>rq. srv (session c) rq = Some r" and "200 \<le> status_code r" and "status_code r < 300"
    and "resp_json r = Some (PDict d)" and "map_of d (KStr ''url_type'') = Some raw"
  shows "fst (get_url_info srv c u) =
           and_then (URLType_by_value raw) (\<lambda>ut. setitem (PDict d) ''url_type'' (PURLType ut))"
  using assms(4,5) unfolding get_url_info_def fst_on_call_ok [of srv c r, OF assms(1-3)]
  by (simp add: and_then_simps json_of_def)

lemma fst_verify_access_key_ok:
  assumes "\<And>rq. srv (session c) rq = Some r" and "200 \<le> status_code r" and "status_code r < 300"
    and "resp_json r = Some (PDict d)" and "map_of d (KStr ''basic_permissions'') = Some (PList raw)"
  shows "fst (verify_access_key srv c) =
           and_then (map_err Permission_by_value raw) (\<lambda>ps.
             setitem (PDict d) ''basic_permissions'' (PList (map PPermission ps)))"
  using assms(4,5) unfolding verify_access_key_def fst_on_call_ok [of srv c r, OF assms(1-3)]
  by (simp add: and_then_simps json_of_def)

lemma fst_get_url_files_ok:
  assumes "\<And>rq. srv (session c) rq = Some r" and "200 \<le> status_code r" and "status_code r < 300"
    and "resp_json r = Some (PDict d)" and "map_of d (KStr ''url_file_statuses'') = Some (PList raw)"
  shows "fst (get_url_files srv c u) =
           and_then (map_err translate_file_status raw) (\<lambda>sts.
             setitem (PDict d) ''url_file_statuses'' (PList sts))"
  using assms(4,5) unfolding get_url_files_def fst_on_call_ok [of srv c r, OF assms(1-3)]
  by (simp add: and_then_simps json_of_def for_each_def and_then_def split: sum.splits)

text \<open>
  Claim C4. The service answers with a 2xx response whose body is an object. For
  \<open>add_file\<close> (\<open>status\<close>), \<open>get_url_info\<close> (\<open>url_type\<close>), \<open>verify_access_key\<close> (each
  element of \<open>basic_permissions\<close>) and \<open>get_url_files\<close> (the \<open>status\<close> of each element
  of \<open>url_file_statuses\<close>): when the integers are those of members of the enum, the
  result is the body with the members in their place; when an integer is that of no
  member, the call raises the \<open>ValueError\<close> of the enum lookup for such an integer.
  That error is none of the four HTTP status errors, not the bare \<open>Exception\<close> of
  the identity checks, and not the \<open>ValueError\<close> that \<open>add_file\<close> raises for its
  argument.
\<close>

theorem enum_fields_typed_or_data_format_error:
  assumes "\<And>rq. srv (session c) rq = Some r"
    and "200 \<le> status_code r" and "status_code r < 300"
    and "resp_json r = Some (PDict d)"
  shows "((f = Val (PStr path) \<or> f = BytesIO buf pos)
            \<and> map_of d (KStr ''status'') = Some (PInt (ImportStatus_value st)) \<longrightarrow>
          fst (add_file srv c f) =
            Inr (PDict (AList.update (KStr ''status'') (PImportStatus st) d)))
       \<and> ((f = Val (PStr path) \<or> f = BytesIO buf pos)
            \<and> map_of d (KStr ''status'') = Some (PInt n) \<and> (\<forall>m. ImportStatus_value m \<noteq> n) \<longrightarrow>
          fst (add_file srv c f) = Inl (ValueError (NotAValid (PInt n) ''ImportStatus'')))
       \<and> (map_of d (KStr ''url_type'') = Some (PInt (URLType_value ut)) \<longrightarrow>
          fst (get_url_info srv c u) =
            Inr (PDict (AList.update (KStr ''url_type'') (PURLType ut) d)))
       \<and> (map_of d (KStr ''url_type'') = Some (PInt n) \<and> (\<forall>m. URLType_value m \<noteq> n) \<longrightarrow>
          fst (get_url_info srv c u) = Inl (ValueError (NotAValid (PInt n) ''URLType'')))
       \<and> (map_of d (KStr ''basic_permissions'')
              = Some (PList (map (\<lambda>p. PInt (Permission_value p)) ps)) \<longrightarrow>
          fst (verify_access_key srv c) =
            Inr (PDict (AList.update (KStr ''basic_permissions'') (PList (map PPermission ps)) d)))
       \<and> (map_of d (KStr ''basic_permissions'') = Some (PList (map PInt ns))
            \<and> (\<exists>k\<in>set ns. \<forall>p. Permission_value p \<noteq> k) \<longrightarrow>
          (\<exists>k\<in>set ns. (\<forall>p. Permission_value p \<noteq> k)
             \<and> fst (verify_access_key srv c) = Inl (ValueError (NotAValid (PInt k) ''Permission''))))
       \<and> (map_of d (KStr ''url_file_statuses'') = Some (PList (map (\<lambda>fs. PDict (fst fs)) fss))
            \<and> (\<forall>fs\<in>set fss.
                  map_of (fst fs) (KStr ''status'') = Some (PInt (ImportStatus_value (snd fs)))) \<longrightarrow>
          fst (get_url_files srv c u) =
            Inr (PDict (AList.update (KStr ''url_file_statuses'')
                   (PList (map (\<lambda>fs. PDict (AList.update (KStr ''status'')
                                              (PImportStatus (snd fs)) (fst fs))) fss)) d)))
       \<and> (map_of d (KStr ''url_file_statuses'') = Some (PList (map (\<lambda>fs. PDict (fst fs)) fis))
            \<and> (\<forall>fs\<in>set fis. map_of (fst fs) (KStr ''status'') = Some (PInt (snd fs)))
            \<and> (\<exists>fs\<in>set fis. \<forall>m. ImportStatus_value m \<noteq> snd fs) \<longrightarrow>
          (\<exists>fs\<in>set fis. (\<forall>m. ImportStatus_value m \<noteq> snd fs)
             \<and> fst (get_url_files srv c u) =
                 Inl (ValueError (NotAValid (PInt (snd fs)) ''ImportStatus''))))
       \<and> (\<forall>v cls. is_data_format_error (ValueError (NotAValid v cls)))
       \<and> (\<forall>e. is_data_format_error e \<longrightarrow>
             \<not> is_api_error e \<and> \<not> is_usage_error e
             \<and> e \<noteq> ValueError (Message ''Value must be file object or path''))"
proof (intro conjI impI allI; (elim conjE)?)
  assume "f = Val (PStr path) \<or> f = BytesIO buf pos"
    and "map_of d (KStr ''status'') = Some (PInt (ImportStatus_value st))"
  then show "fst (add_file srv c f) =
      Inr (PDict (AList.update (KStr ''status'') (PImportStatus st) d))"
    using fst_add_file_ok [of srv c r, OF assms(1-3)] import_status_of_member [OF assms(4)] by simp
next
  assume "f = Val (PStr path) \<or> f = BytesIO buf pos"
    and "map_of d (KStr ''status'') = Some (PInt n)" and "\<forall>m. ImportStatus_value m \<noteq> n"
  then show "fst (add_file srv c f) = Inl (ValueError (NotAValid (PInt n) ''ImportStatus''))"
    using fst_add_file_ok [of srv c r, OF assms(1-3)] import_status_of_invalid [OF assms(4)] by simp
next
  assume "map_of d (KStr ''url_type'') = Some (PInt (URLType_value ut))"
  then show "fst (get_url_info srv c u) =
      Inr (PDict (AList.update (KStr ''url_type'') (PURLType ut) d))"
    by (simp add: and_then_simps fst_get_url_info_ok [of srv c r, OF assms] URLType_by_value_member)
next
  assume "map_of d (KStr ''url_type'') = Some (PInt n)" and "\<forall>m. URLType_value m \<noteq> n"
  then show "fst (get_url_info srv c u) = Inl (ValueError (NotAValid (PInt n) ''URLType''))"
    by (simp add: and_then_simps fst_get_url_info_ok [of srv c r, OF assms] URLType_by_value_def enum_by_value_invalid)
next
  assume raw: "map_of d (KStr ''basic_permissions'')
      = Some (PList (map (\<lambda>p. PInt (Permission_value p)) ps))"
  have "map_err Permission_by_value (map (\<lambda>p. PInt (Permission_value p)) ps) = Inr (map (\<lambda>p. p) ps)"
    by (rule map_err_map_Inr) (simp add: and_then_simps Permission_by_value_member)
  then show "fst (verify_access_key srv c) =
      Inr (PDict (AList.update (KStr ''basic_permissions'') (PList (map PPermission ps)) d))"
    by (simp add: and_then_simps fst_verify_access_key_ok [of srv c r, OF assms raw])
next
  assume raw: "map_of d (KStr ''basic_permissions'') = Some (PList (map PInt ns))"
    and bad: "\<exists>k\<in>set ns. \<forall>p. Permission_value p \<noteq> k"
  let ?P = "\<lambda>e. \<exists>k\<in>set ns. (\<forall>p. Permission_value p \<noteq> k)
                 \<and> e = ValueError (NotAValid (PInt k) ''Permission'')"
  have "\<exists>e. map_err Permission_by_value (map PInt ns) = Inl e \<and> ?P e"
  proof (rule map_err_first_error)
    fix x e
    assume "x \<in> set (map PInt ns)" and "Permission_by_value x = Inl e"
    then show "?P e" using Permission_by_value_error by auto
  next
    from bad obtain k where k: "k \<in> set ns" and "\<forall>p. Permission_value p \<noteq> k" by auto
    then have "Permission_by_value (PInt k) = Inl (ValueError (NotAValid (PInt k) ''Permission''))"
      by (simp add: and_then_simps Permission_by_value_def enum_by_value_invalid)
    with k show "\<exists>x\<in>set (map PInt ns). \<exists>e. Permission_by_value x = Inl e"
      by auto
  qed
  then show "\<exists>k\<in>set ns. (\<forall>p. Permission_value p \<noteq> k)
      \<and> fst (verify_access_key srv c) = Inl (ValueError (NotAValid (PInt k) ''Permission''))"
    by (auto simp: and_then_simps fst_verify_access_key_ok [of srv c r, OF assms raw])
next
  assume raw: "map_of d (KStr ''url_file_statuses'') = Some (PList (map (\<lambda>fs. PDict (fst fs)) fss))"
    and ok: "\<forall>fs\<in>set fss.
       map_of (fst fs) (KStr ''status'') = Some (PInt (ImportStatus_value (snd fs)))"
  have "map_err translate_file_status (map (\<lambda>fs. PDict (fst fs)) fss) =
          Inr (map (\<lambda>fs. PDict (AList.update (KStr ''status'') (PImportStatus (snd fs)) (fst fs))) fss)"
    by (rule map_err_map_Inr) (simp add: and_then_simps ok translate_file_status_member)
  then show "fst (get_url_files srv c u) =
      Inr (PDict (AList.update (KStr ''url_file_statuses'')
             (PList (map (\<lambda>fs. PDict (AList.update (KStr ''status'')
                                        (PImportStatus (snd fs)) (fst fs))) fss)) d))"
    by (simp add: and_then_simps fst_get_url_files_ok [of srv c r, OF assms raw])
next
  assume raw: "map_of d (KStr ''url_file_statuses'') = Some (PList (map (\<lambda>fs. PDict (fst fs)) fis))"
    and ints: "\<forall>fs\<in>set fis. map_of (fst fs) (KStr ''status'') = Some (PInt (snd fs))"
    and bad: "\<exists>fs\<in>set fis. \<forall>m. ImportStatus_value m \<noteq> snd fs"
  let ?P = "\<lambda>e. \<exists>fs\<in>set fis. (\<forall>m. ImportStatus_value m \<noteq> snd fs)
                 \<and> e = ValueError (NotAValid (PInt (snd fs)) ''ImportStatus'')"
  have "\<exists>e. map_err translate_file_status (map (\<lambda>fs. PDict (fst fs)) fis) = Inl e \<and> ?P e"
  proof (rule map_err_first_error)
    fix x e
    assume "x \<in> set (map (\<lambda>fs. PDict (fst fs)) fis)" and e: "translate_file_status x = Inl e"
    then obtain fs where fs: "fs \<in> set fis" and x: "x = PDict (fst fs)" by auto
    from ints fs have "map_of (fst fs) (KStr ''status'') = Some (PInt (snd fs))" by simp
    from translate_file_status_error [OF this] e x fs show "?P e" by auto
  next
    from bad obtain fs where fs: "fs \<in> set fis" and "\<forall>m. ImportStatus_value m \<noteq> snd fs" by auto
    moreover from ints fs have "map_of (fst fs) (KStr ''status'') = Some (PInt (snd fs))" by simp
    ultimately have "translate_file_status (PDict (fst fs)) =
        Inl (ValueError (NotAValid (PInt (snd fs)) ''ImportStatus''))"
      by (simp add: and_then_simps translate_file_status_def ImportStatus_by_value_def enum_by_value_invalid)
    with fs show "\<exists>x\<in>set (map (\<lambda>fs. PDict (fst fs)) fis). \<exists>e. translate_file_status x = Inl e"
      by auto
  qed
  then show "\<exists>fs\<in>set fis. (\<forall>m. ImportStatus_value m \<noteq> snd fs)
      \<and> fst (get_url_files srv c u) = Inl (ValueError (NotAValid (PInt (snd fs)) ''ImportStatus''))"
    by (auto simp: and_then_simps fst_get_url_files_ok [of srv c r, OF assms raw])
next
  fix v cls show "is_data_format_error (ValueError (NotAValid v cls))" by simp
next
  fix e assume "is_data_format_error e"
  then show "\<not> is_api_error e" "\<not> is_usage_error e"
    "e \<noteq> ValueError (Message ''Value must be file object or path'')"
    using data_format_error_distinct by auto
qed

text \<open>
  The theorem for \<open>get_url_info\<close>: 5 becomes \<open>UnknownURL\<close>, and 1, which no member of
  \<open>URLType\<close> has, raises.
\<close>

theorem enum_fields_typed_or_data_format_error_witness:
  "fst (get_url_info
          (stub \<lparr>status_code = 200, resp_json = Some (PDict [(KStr ''url_type'', PInt 5)]),
                 content = []\<rparr>)
          \<lparr>access_key = PNone, url = ''http://127.0.0.1:45869'', session = []\<rparr>
          (PStr ''https://example.org/post/1''))
     = Inr (PDict [(KStr ''url_type'', PURLType UnknownURL)])
   \<and> fst (get_url_info
          (stub \<lparr>status_code = 200, resp_json = Some (PDict [(KStr ''url_type'', PInt 1)]),
                 content = []\<rparr>)
          \<lparr>access_key = PNone, url = ''http://127.0.0.1:45869'', session = []\<rparr>
          (PStr ''https://example.org/post/1''))
     = Inl (ValueError (NotAValid (PInt 1) ''URLType''))"
proof -
  have no_member: "\<forall>m. URLType_value m \<noteq> 1"
  proof
    fix m show "URLType_value m \<noteq> 1" by (cases m) simp_all
  qed
  note typed = enum_fields_typed_or_data_format_error
    [where srv = "stub \<lparr>status_code = 200,
                          resp_json = Some (PDict [(KStr ''url_type'', PInt 5)]), content = []\<rparr>"
       and c = "\<lparr>access_key = PNone, url = ''http://127.0.0.1:45869'', session = []\<rparr>"
       and r = "\<lparr>status_code = 200,
                  resp_json = Some (PDict [(KStr ''url_type'', PInt 5)]), content = []\<rparr>"
       and d = "[(KStr ''url_type'', PInt 5)]" and ut = UnknownURL
       and u = "PStr ''https://example.org/post/1''",
     THEN conjunct2, THEN conjunct2, THEN conjunct1]
  note refused = enum_fields_typed_or_data_format_error
    [where srv = "stub \<lparr>status_code = 200,
                          resp_json = Some (PDict [(KStr ''url_type'', PInt 1)]), content = []\<rparr>"
       and c = "\<lparr>access_key = PNone, url = ''http://127.0.0.1:45869'', session = []\<rparr>"
       and r = "\<lparr>status_code = 200,
                  resp_json = Some (PDict [(KStr ''url_type'', PInt 1)]), content = []\<rparr>"
       and d = "[(KStr ''url_type'', PInt 1)]" and n = 1
       and u = "PStr ''https://example.org/post/1''",
     THEN conjunct2, THEN conjunct2, THEN conjunct2, THEN conjunct1]
  show ?thesis
    using typed refused no_member by (simp add: and_then_simps stub_def)
qed


section \<open>The tag statuses of \<open>file_metadata\<close>\<close>















end
